theory Spec2Isabelle
  imports Main "HOL-Library.Sublist"
begin

section \<open>JavaScript values\<close>

text \<open>
  A JavaScript string is a sequence of UTF-16 code units. The ASCII part of a literal of
  the source is written with \<open>ascii\<close>; the glyphs beyond ASCII are given by their code
  units.
\<close>

type_synonym jsstring = "nat list"

definition ascii :: "string \<Rightarrow> jsstring" where
  "ascii s = map of_char s"

text \<open>
  The values a parsed JSON body and a property read can give. \<open>Num\<close> carries the
  integer-valued numbers (of the safe range, where \<open>String(n)\<close> is the decimal numeral);
  \<open>Obj\<close> lists the own properties of a parsed object, each key once and none of them
  the name of a method that the engine looks up on the object (\<open>toString\<close>, \<open>valueOf\<close>,
  \<open>forEach\<close>, \<open>includes\<close>).
\<close>

datatype jsval =
    Undefined
  | Null
  | Bool bool
  | Num int
  | Str jsstring
  | Arr "jsval list"
  | Obj "(jsstring \<times> jsval) list"

fun nullish :: "jsval \<Rightarrow> bool" where
  "nullish Undefined = True"
| "nullish Null = True"
| "nullish _ = False"

text \<open>The condition of \<open>if\<close>, \<open>&&\<close>, \<open>||\<close> and \<open>!\<close>.\<close>

fun truthy :: "jsval \<Rightarrow> bool" where
  "truthy Undefined = False"
| "truthy Null = False"
| "truthy (Bool b) = b"
| "truthy (Num n) = (n \<noteq> 0)"
| "truthy (Str s) = (s \<noteq> [])"
| "truthy (Arr xs) = True"
| "truthy (Obj kvs) = True"

text \<open>
  \<open>v.k\<close> for a receiver that is neither \<open>null\<close> nor \<open>undefined\<close> (there the read
  throws a TypeError, which each caller checks first) and a property name \<open>k\<close> that is
  not an array index: an own property of an object, \<open>length\<close> of an array or a string,
  \<open>undefined\<close> otherwise.
\<close>

fun get_prop :: "jsval \<Rightarrow> jsstring \<Rightarrow> jsval" where
  "get_prop (Obj kvs) k = (case map_of kvs k of Some v \<Rightarrow> v | None \<Rightarrow> Undefined)"
| "get_prop (Arr xs) k = (if k = ascii ''length'' then Num (int (length xs)) else Undefined)"
| "get_prop (Str s) k = (if k = ascii ''length'' then Num (int (length s)) else Undefined)"
| "get_prop _ k = Undefined"

text \<open>\<open>v?.k\<close>\<close>

definition opt_prop :: "jsval \<Rightarrow> jsstring \<Rightarrow> jsval" where
  "opt_prop v k = (if nullish v then Undefined else get_prop v k)"

text \<open>\<open>v || d\<close>\<close>

definition or_else :: "jsval \<Rightarrow> jsval \<Rightarrow> jsval" where
  "or_else v d = (if truthy v then v else d)"

text \<open>The string of a value in a template literal: \<open>`${v}`\<close>.\<close>

fun digits :: "nat \<Rightarrow> jsstring" where
  "digits n = (if n < 10 then [48 + n] else digits (n div 10) @ [48 + n mod 10])"

declare digits.simps [simp del]

fun join :: "jsstring list \<Rightarrow> jsstring" where
  "join [] = []"
| "join [x] = x"
| "join (x # y # ys) = x @ 44 # join (y # ys)"

fun to_string :: "jsval \<Rightarrow> jsstring" where
  "to_string Undefined = ascii ''undefined''"
| "to_string Null = ascii ''null''"
| "to_string (Bool b) = (if b then ascii ''true'' else ascii ''false'')"
| "to_string (Num n) = (if n < 0 then 45 # digits (nat (- n)) else digits (nat n))"
| "to_string (Str s) = s"
| "to_string (Arr xs) = join (map (\<lambda>x. if nullish x then [] else to_string x) xs)"
| "to_string (Obj kvs) = ascii ''[object Object]''"

text \<open>
  What the model takes from the JavaScript engine: the message of the TypeError it
  raises, for a property read on \<open>null\<close> or \<open>undefined\<close> and for a call of a value that
  is no function, and whether a text read as a number (\<open>StringToNumber\<close>) is above zero.
\<close>

datatype fault = ReadOfNullish jsstring | NotAFunction jsstring

record engine =
  type_error :: "fault \<Rightarrow> jsstring"
  text_positive :: "jsstring \<Rightarrow> bool"

text \<open>
  \<open>v > 0\<close>: \<open>undefined\<close> and an object read as \<open>NaN\<close>, \<open>null\<close> as 0, a boolean as 0
  or 1, a text as the number it spells, and an array as its text.
\<close>

fun greater_than_zero :: "engine \<Rightarrow> jsval \<Rightarrow> bool" where
  "greater_than_zero eng Undefined = False"
| "greater_than_zero eng Null = False"
| "greater_than_zero eng (Bool b) = b"
| "greater_than_zero eng (Num n) = (0 < n)"
| "greater_than_zero eng (Str s) = text_positive eng s"
| "greater_than_zero eng (Arr xs) = text_positive eng (to_string (Arr xs))"
| "greater_than_zero eng (Obj kvs) = False"

text \<open>
  \<open>String.prototype.trim\<close> removes the white space and line terminator code units
  from both ends: TAB, LF, VT, FF, CR, SP, NBSP, U+1680, U+2000 to U+200A, U+2028,
  U+2029, U+202F, U+205F, U+3000 and U+FEFF.
\<close>

definition is_whitespace :: "nat \<Rightarrow> bool" where
  "is_whitespace c =
     (c \<in> {9, 10, 11, 12, 13, 32, 160, 5760, 8232, 8233, 8239, 8287, 12288, 65279}
      \<or> (8192 \<le> c \<and> c \<le> 8202))"

definition trim :: "jsstring \<Rightarrow> jsstring" where
  "trim s = rev (dropWhile is_whitespace (rev (dropWhile is_whitespace s)))"

text \<open>
  \<open>Array.prototype.slice(start, end)\<close> (\<open>fin\<close> is \<open>end\<close>) with integer arguments: a negative index
  counts from the end, and both are clamped to the array.
\<close>

definition slice :: "'a list \<Rightarrow> int \<Rightarrow> int \<Rightarrow> 'a list" where
  "slice xs start fin =
     (let len = int (length xs);
          k = (if start < 0 then max (len + start) 0 else min start len);
          final = (if fin < 0 then max (len + fin) 0 else min fin len)
      in take (nat (final - k)) (drop (nat k) xs))"

section \<open>Notification feed\<close>

text \<open>
  \<^verbatim>\<open>{ id: Date.now(), type, message, time: 'Just now', read: false }\<close>
\<close>

record notification =
  n_id :: nat
  n_type :: jsval
  n_message :: jsstring
  n_time :: jsstring
  n_read :: bool

text \<open>
  \<^verbatim>\<open>
  const addNotification = (type, message) => {
    const newNotif = { id: Date.now(), type, message, time: 'Just now', read: false };
    const updated = [newNotif, ...notifications].slice(0, 20);
    setNotifications(updated);
    localStorage.setItem('pos_notifications', JSON.stringify(updated));
  };
  \<close>
  \<open>addNotification notifications now type message\<close> is the value \<open>updated\<close>, which the
  function both sets as the feed and persists. \<open>notifications\<close> is the feed the closure
  holds and \<open>now\<close> the reading of \<open>Date.now()\<close>.
\<close>

definition newNotif :: "nat \<Rightarrow> jsval \<Rightarrow> jsstring \<Rightarrow> notification" where
  "newNotif now type message =
     \<lparr>n_id = now, n_type = type, n_message = message, n_time = ascii ''Just now'',
      n_read = False\<rparr>"

definition addNotification ::
  "notification list \<Rightarrow> nat \<Rightarrow> jsval \<Rightarrow> jsstring \<Rightarrow> notification list" where
  "addNotification notifications now type message =
     slice (newNotif now type message # notifications) 0 20"

text \<open>
  \<^verbatim>\<open>
  const markNotificationRead = (id) => {
    const updated = notifications.map(n => n.id === id ? { ...n, read: true } : n);
    setNotifications(updated);
    localStorage.setItem('pos_notifications', JSON.stringify(updated));
  };
  \<close>
  Again the value \<open>updated\<close>.
\<close>

definition markNotificationRead :: "notification list \<Rightarrow> nat \<Rightarrow> notification list" where
  "markNotificationRead notifications i =
     map (\<lambda>n. if n_id n = i then n\<lparr>n_read := True\<rparr> else n) notifications"

text \<open>
  A push call: the clock reading at the call and its two arguments. \<open>pushes\<close> runs a
  sequence of calls of which each is made from a render of the feed the call before
  left, as calls of different handler runs are once the component has rendered again.
  The calls of one handler run or timer callback are no such sequence: they all read the
  feed of their own render (see \<open>push_calls\<close> below).
\<close>

type_synonym push = "nat \<times> jsval \<times> jsstring"

definition created :: "push \<Rightarrow> notification" where
  "created p = newNotif (fst p) (fst (snd p)) (snd (snd p))"

definition push :: "notification list \<Rightarrow> push \<Rightarrow> notification list" where
  "push feed p = addNotification feed (fst p) (fst (snd p)) (snd (snd p))"

fun pushes :: "notification list \<Rightarrow> push list \<Rightarrow> notification list" where
  "pushes feed [] = feed"
| "pushes feed (p # ps) = pushes (push feed p) ps"

section \<open>Client state\<close>

text \<open>
  A chat turn. \<open>timestamp\<close> is the instant whose ISO-8601 text the source stores; a
  user turn has no \<open>model\<close> and no \<open>tokens\<close>.
\<close>

datatype role = User | Assistant

record chat_message =
  role :: role
  content :: jsval
  timestamp :: nat
  model :: jsval
  tokens :: jsval

text \<open>
  \<open>localStorage\<close>: each key holds the value whose JSON text was stored, or a text of
  another origin.
\<close>

datatype stored =
    StoredAuth jsval
  | StoredFeed "notification list"
  | StoredChat "chat_message list"
  | StoredText jsstring

definition pos_auth :: jsstring where
  "pos_auth = ascii ''pos_auth''"

definition pos_notifications :: jsstring where
  "pos_notifications = ascii ''pos_notifications''"

definition pos_chat_history :: jsstring where
  "pos_chat_history = ascii ''pos_chat_history''"

text \<open>The two callbacks \<open>handleSubmit\<close> hands to \<open>setTimeout\<close>.\<close>

datatype callback = ReloadContactsThenNotify | LoadDashboardData

text \<open>
  The state variables of \<open>App\<close> that the orchestration reads or writes, the durable
  storage, and the pending timers, each with the clock reading at which it is due.
\<close>

record app =
  isAuthenticated :: bool
  query :: jsstring
  loading :: bool
  response :: jsval
  context' :: jsval
  avatars :: jsval
  tasks :: jsval
  events :: jsval
  emails :: jsval
  contacts :: jsval
  weather :: jsval
  notifications :: "notification list"
  taskPage :: int
  eventPage :: int
  emailPage :: int
  contactPage :: int
  chatHistory :: "chat_message list"
  groqLoading :: bool
  groqInput :: jsstring
  localStorage :: "jsstring \<rightharpoonup> stored"
  timers :: "(nat \<times> callback) list"

section \<open>Effects\<close>

text \<open>
  A handler is the sequence of calls it makes, in program order: requests, state
  setters, storage writes, pushes, timers and console output. \<open>apply_effect\<close> says what
  each call does to the state.
\<close>

datatype effect =
    Get jsstring
  | Post jsstring jsval
  | SetIsAuthenticated bool
  | SetQuery jsstring
  | SetLoading bool
  | SetResponse jsval
  | SetContext jsval
  | SetAvatars jsval
  | SetTasks jsval
  | SetEvents jsval
  | SetWeather jsval
  | SetEmails jsval
  | SetContacts jsval
  | SetContactPage int
  | SetChatHistory "chat_message list"
  | SaveChatHistory "chat_message list"
  | SetGroqInput jsstring
  | SetGroqLoading bool
  | AddNotification jsval jsstring
  | MarkNotificationRead nat
  | RemoveItem jsstring
  | SetTimeout callback nat
  | ConsoleLog jsstring jsval
  | ConsoleError jsstring

text \<open>
  \<open>apply_effect closure now e s\<close>: the call \<open>e\<close>, made at clock reading \<open>now\<close> by a
  handler of the render whose state is \<open>closure\<close>, on the state \<open>s\<close>. A setter replaces
  its variable. \<open>addNotification\<close> and \<open>markNotificationRead\<close> compute \<open>updated\<close> from the
  \<open>notifications\<close> of their closure, set it and persist it. \<open>setTimeout(f, d)\<close> makes
  \<open>f\<close> due \<open>d\<close> milliseconds after \<open>now\<close>. A write to the storage is taken to succeed.
\<close>

fun apply_effect :: "app \<Rightarrow> nat \<Rightarrow> effect \<Rightarrow> app \<Rightarrow> app" where
  "apply_effect closure now (Get url) s = s"
| "apply_effect closure now (Post url body) s = s"
| "apply_effect closure now (SetIsAuthenticated b) s = s\<lparr>isAuthenticated := b\<rparr>"
| "apply_effect closure now (SetQuery q) s = s\<lparr>query := q\<rparr>"
| "apply_effect closure now (SetLoading b) s = s\<lparr>loading := b\<rparr>"
| "apply_effect closure now (SetResponse v) s = s\<lparr>response := v\<rparr>"
| "apply_effect closure now (SetContext v) s = s\<lparr>context' := v\<rparr>"
| "apply_effect closure now (SetAvatars v) s = s\<lparr>avatars := v\<rparr>"
| "apply_effect closure now (SetTasks v) s = s\<lparr>tasks := v\<rparr>"
| "apply_effect closure now (SetEvents v) s = s\<lparr>events := v\<rparr>"
| "apply_effect closure now (SetWeather v) s = s\<lparr>weather := v\<rparr>"
| "apply_effect closure now (SetEmails v) s = s\<lparr>emails := v\<rparr>"
| "apply_effect closure now (SetContacts v) s = s\<lparr>contacts := v\<rparr>"
| "apply_effect closure now (SetContactPage p) s = s\<lparr>contactPage := p\<rparr>"
| "apply_effect closure now (SetChatHistory h) s = s\<lparr>chatHistory := h\<rparr>"
| "apply_effect closure now (SaveChatHistory h) s =
     s\<lparr>localStorage := (localStorage s)(pos_chat_history \<mapsto> StoredChat h)\<rparr>"
| "apply_effect closure now (SetGroqInput i) s = s\<lparr>groqInput := i\<rparr>"
| "apply_effect closure now (SetGroqLoading b) s = s\<lparr>groqLoading := b\<rparr>"
| "apply_effect closure now (AddNotification type message) s =
     (let updated = addNotification (notifications closure) now type message
      in s\<lparr>notifications := updated,
            localStorage := (localStorage s)(pos_notifications \<mapsto> StoredFeed updated)\<rparr>)"
| "apply_effect closure now (MarkNotificationRead i) s =
     (let updated = markNotificationRead (notifications closure) i
      in s\<lparr>notifications := updated,
            localStorage := (localStorage s)(pos_notifications \<mapsto> StoredFeed updated)\<rparr>)"
| "apply_effect closure now (RemoveItem k) s = s\<lparr>localStorage := (localStorage s)(k := None)\<rparr>"
| "apply_effect closure now (SetTimeout f d) s = s\<lparr>timers := timers s @ [(now + d, f)]\<rparr>"
| "apply_effect closure now (ConsoleLog l v) s = s"
| "apply_effect closure now (ConsoleError l) s = s"

text \<open>
  One handler run at clock reading \<open>now\<close>, from the render whose state is \<open>s\<close>.
\<close>

definition run :: "app \<Rightarrow> nat \<Rightarrow> effect list \<Rightarrow> app" where
  "run s now es = fold (apply_effect s now) es s"

text \<open>The pushes and the requests of a handler run, in order.\<close>

fun pushed :: "effect list \<Rightarrow> (jsval \<times> jsstring) list" where
  "pushed [] = []"
| "pushed (AddNotification type message # es) = (type, message) # pushed es"
| "pushed (e # es) = pushed es"

fun requests :: "effect list \<Rightarrow> effect list" where
  "requests [] = []"
| "requests (Get url # es) = Get url # requests es"
| "requests (Post url body # es) = Post url body # requests es"
| "requests (e # es) = requests es"

text \<open>The callbacks due at clock reading \<open>t\<close>.\<close>

definition due :: "nat \<Rightarrow> (nat \<times> callback) list \<Rightarrow> callback list" where
  "due t ts = map snd (filter (\<lambda>p. fst p \<le> t) ts)"

text \<open>
  A push call as the program makes it: the render whose closure makes the call, given
  as the number of states it lies back (0 for a render of the current state), and the
  push. \<open>push_calls s older cs\<close> makes the calls \<open>cs\<close> in order, from the current state
  \<open>s\<close> with the states \<open>older\<close> before it, newest first; a render further back than the
  oldest state is the oldest. The two pushes of one \<open>forEach\<close> are the calls of ages 0
  and 1, and a push of a timer callback has the age of the handler run that set the
  timer.
\<close>

type_synonym push_call = "nat \<times> push"

fun push_calls :: "app \<Rightarrow> app list \<Rightarrow> push_call list \<Rightarrow> app" where
  "push_calls s older [] = s"
| "push_calls s older (c # cs) =
     push_calls
       (apply_effect ((s # older) ! min (fst c) (length older)) (fst (snd c))
          (AddNotification (fst (snd (snd c))) (snd (snd (snd c)))) s)
       (s # older) cs"

section \<open>Backend calls\<close>

text \<open>
  What \<open>await fetch(...)\<close> followed by \<open>await res.json()\<close> gives: the request is
  rejected (a transport failure), the body does not parse, or the parsed body. The two
  failures carry \<open>error.message\<close>.
\<close>

datatype fetch_result =
    FetchRejected jsstring
  | JsonRejected jsstring
  | Json jsval

definition API_URL :: jsstring where
  "API_URL = ascii ''http://localhost:8000''"

section \<open>Resource aggregator\<close>

text \<open>
  \<open>(await res.json()).field || []\<close>: \<open>None\<close> when the statement throws, because the
  body does not parse or is \<open>null\<close>.
\<close>

definition collection :: "jsstring \<Rightarrow> fetch_result \<Rightarrow> jsval option" where
  "collection field res =
     (case res of
        Json v \<Rightarrow> if nullish v then None else Some (or_else (get_prop v field) (Arr []))
      | _ \<Rightarrow> None)"

text \<open>\<open>await res.json()\<close>\<close>

definition body :: "fetch_result \<Rightarrow> jsval option" where
  "body res = (case res of Json v \<Rightarrow> Some v | _ \<Rightarrow> None)"

text \<open>
  The statements of a \<open>try\<close> block in order, each the call it makes or \<open>None\<close> when it
  throws: the calls made, and whether the block ran to its end.
\<close>

fun try_block :: "effect option list \<Rightarrow> effect list \<times> bool" where
  "try_block [] = ([], True)"
| "try_block (None # rest) = ([], False)"
| "try_block (Some e # rest) = (e # fst (try_block rest), snd (try_block rest))"

text \<open>\<open>data.contacts?.length || 0\<close>\<close>

definition contacts_count :: "jsval \<Rightarrow> jsval" where
  "contacts_count data =
     or_else (opt_prop (get_prop data (ascii ''contacts'')) (ascii ''length'')) (Num 0)"

text \<open>
  \<^verbatim>\<open>
  const loadContacts = async () => {
    try {
      const res = await fetch(`${API_URL}/contacts`);
      const data = await res.json();
      setContacts(data.contacts || []);
      console.log('Contacts reloaded:', data.contacts?.length || 0);
    } catch (error) {
      console.error('Error loading contacts:', error);
    }
  };
  \<close>
\<close>

definition loadContacts :: "fetch_result \<Rightarrow> effect list" where
  "loadContacts res =
     Get (API_URL @ ascii ''/contacts'') #
     (case res of
        Json data \<Rightarrow>
          if nullish data then [ConsoleError (ascii ''Error loading contacts:'')]
          else [SetContacts (or_else (get_prop data (ascii ''contacts'')) (Arr [])),
                ConsoleLog (ascii ''Contacts reloaded:'') (contacts_count data)]
      | _ \<Rightarrow> [ConsoleError (ascii ''Error loading contacts:'')])"

text \<open>The seven responses of \<open>loadDashboardData\<close>, named as the source destructures them.\<close>

record dashboard_responses =
  contextRes :: fetch_result
  avatarsRes :: fetch_result
  tasksRes :: fetch_result
  eventsRes :: fetch_result
  weatherRes :: fetch_result
  emailsRes :: fetch_result
  contactsRes :: fetch_result

definition fetch_rejected :: "fetch_result \<Rightarrow> bool" where
  "fetch_rejected res = (case res of FetchRejected msg \<Rightarrow> True | _ \<Rightarrow> False)"

text \<open>
  \<^verbatim>\<open>
  const loadDashboardData = async () => {
    try {
      const [contextRes, avatarsRes, tasksRes, eventsRes, weatherRes, emailsRes, contactsRes] =
        await Promise.all([
          fetch(`${API_URL}/context`),
          fetch(`${API_URL}/xp/avatars`),
          fetch(`${API_URL}/tasks?limit=50`),
          fetch(`${API_URL}/calendar/today`),
          fetch(`${API_URL}/weather/current`),
          fetch(`${API_URL}/email/recent?max_results=50`),
          fetch(`${API_URL}/contacts`)
        ]);
      setContext(await contextRes.json());
      setAvatars((await avatarsRes.json()).avatars || []);
      setTasks((await tasksRes.json()).tasks || []);
      setEvents((await eventsRes.json()).events || []);
      setWeather(await weatherRes.json());
      setEmails((await emailsRes.json()).emails || []);
      const contactData = await contactsRes.json();
      setContacts(contactData.contacts || []);
      console.log('Contacts loaded:', contactData.contacts?.length || 0);
    } catch (error) {
      console.error('Error loading dashboard:', error);
    }
  };
  \<close>
  All seven requests are issued; \<open>Promise.all\<close> rejects when one of them does.
\<close>

definition loadDashboardData :: "dashboard_responses \<Rightarrow> effect list" where
  "loadDashboardData rs =
     [Get (API_URL @ ascii ''/context''),
      Get (API_URL @ ascii ''/xp/avatars''),
      Get (API_URL @ ascii ''/tasks?limit=50''),
      Get (API_URL @ ascii ''/calendar/today''),
      Get (API_URL @ ascii ''/weather/current''),
      Get (API_URL @ ascii ''/email/recent?max_results=50''),
      Get (API_URL @ ascii ''/contacts'')] @
     (if fetch_rejected (contextRes rs) \<or> fetch_rejected (avatarsRes rs)
         \<or> fetch_rejected (tasksRes rs) \<or> fetch_rejected (eventsRes rs)
         \<or> fetch_rejected (weatherRes rs) \<or> fetch_rejected (emailsRes rs)
         \<or> fetch_rejected (contactsRes rs)
      then [ConsoleError (ascii ''Error loading dashboard:'')]
      else
        (let block = try_block
           [map_option SetContext (body (contextRes rs)),
            map_option SetAvatars (collection (ascii ''avatars'') (avatarsRes rs)),
            map_option SetTasks (collection (ascii ''tasks'') (tasksRes rs)),
            map_option SetEvents (collection (ascii ''events'') (eventsRes rs)),
            map_option SetWeather (body (weatherRes rs)),
            map_option SetEmails (collection (ascii ''emails'') (emailsRes rs)),
            map_option SetContacts (collection (ascii ''contacts'') (contactsRes rs)),
            map_option (\<lambda>data. ConsoleLog (ascii ''Contacts loaded:'') (contacts_count data))
              (body (contactsRes rs))]
         in fst block @
            (if snd block then [] else [ConsoleError (ascii ''Error loading dashboard:'')])))"

section \<open>Command dispatcher\<close>

text \<open>The glyphs of the messages: U+2713, U+274C, U+1F916.\<close>

definition check_mark :: jsstring where
  "check_mark = [10003]"

definition cross_mark :: jsstring where
  "cross_mark = [10060]"

definition robot_face :: jsstring where
  "robot_face = [55358, 56598]"

text \<open>The \<open>catch\<close> block of \<open>handleSubmit\<close>, for an error with the message \<open>msg\<close>.\<close>

definition submit_catch :: "jsstring \<Rightarrow> effect list" where
  "submit_catch msg =
     [ConsoleError (ascii ''Error:''),
      SetResponse (Obj [(ascii ''response'', Str (ascii ''Error processing request'')),
                        (ascii ''error'', Str msg)]),
      AddNotification (Str (ascii ''system'')) (cross_mark @ ascii '' Error: '' @ msg)]"

text \<open>
  The statements of the \<open>try\<close> block after the pushes, \<open>isContactAction\<close> being truthy
  or not.
\<close>

definition submit_schedule :: "bool \<Rightarrow> effect list" where
  "submit_schedule isContactAction =
     SetQuery [] #
     (if isContactAction
      then [ConsoleLog (ascii ''Contact action detected, reloading contacts...'') Undefined,
            SetTimeout ReloadContactsThenNotify 500]
      else []) @
     [SetTimeout LoadDashboardData 1500]"

text \<open>
  \<^verbatim>\<open>
  const handleSubmit = async () => {
    if (!query.trim()) return;
    setLoading(true);
    try {
      const res = await fetch(`${API_URL}/process`, {
        method: 'POST',
        headers: { 'Content-Type': 'application/json' },
        body: JSON.stringify({ query })
      });
      const data = await res.json();
      setResponse(data);
      if (data.agents && data.agents.length > 0) {
        data.agents.forEach(agent => addNotification(agent, `<check> ${agent} Agent activated`));
      }
      setQuery('');
      const isContactAction = data.agents && data.agents.includes('contact');
      if (isContactAction) {
        console.log('Contact action detected, reloading contacts...');
        setTimeout(async () => {
          await loadContacts();
          addNotification('contact', '<check> Contacts updated');
        }, 500);
      }
      setTimeout(loadDashboardData, 1500);
    } catch (error) {
      console.error('Error:', error);
      setResponse({ response: 'Error processing request', error: error.message });
      addNotification('system', `<cross> Error: ${error.message}`);
    } finally {
      setLoading(false);
    }
  };
  \<close>
  \<open>s\<close> is the state of the render the handler belongs to and \<open>res\<close> what the request
  gives. Reading \<open>data.agents\<close> throws when \<open>data\<close> is \<open>null\<close>. With \<open>data.agents\<close>
  truthy and no array, \<open>forEach\<close> is no function and throws when the guard
  \<open>data.agents.length > 0\<close> holds; otherwise \<open>setQuery('')\<close> runs and \<open>includes\<close> throws
  (a text has \<open>includes\<close>, but a truthy text has a positive length).
\<close>

definition handleSubmit :: "app \<Rightarrow> engine \<Rightarrow> fetch_result \<Rightarrow> effect list" where
  "handleSubmit s eng res =
     (if trim (query s) = [] then []
      else
        [SetLoading True,
         Post (API_URL @ ascii ''/process'') (Obj [(ascii ''query'', Str (query s))])] @
        (case res of
           FetchRejected msg \<Rightarrow> submit_catch msg
         | JsonRejected msg \<Rightarrow> submit_catch msg
         | Json data \<Rightarrow>
             SetResponse data #
             (if nullish data
              then submit_catch (type_error eng (ReadOfNullish (ascii ''agents'')))
              else
                (let agents = get_prop data (ascii ''agents'') in
                 if \<not> truthy agents then submit_schedule False
                 else
                   (case agents of
                      Arr xs \<Rightarrow>
                        map (\<lambda>agent. AddNotification agent
                               (check_mark @ ascii '' '' @ to_string agent @
                                ascii '' Agent activated'')) xs @
                        submit_schedule (Str (ascii ''contact'') \<in> set xs)
                    | _ \<Rightarrow>
                        if greater_than_zero eng (get_prop agents (ascii ''length''))
                        then submit_catch (type_error eng (NotAFunction (ascii ''forEach'')))
                        else SetQuery [] #
                             submit_catch
                               (type_error eng (NotAFunction (ascii ''includes''))))))) @
        [SetLoading False])"

text \<open>
  The callbacks when their timers fire: the first awaits \<open>loadContacts\<close>, which catches
  its own errors, and then pushes; the second is \<open>loadDashboardData\<close>.
\<close>

fun fire :: "callback \<Rightarrow> fetch_result \<Rightarrow> dashboard_responses \<Rightarrow> effect list" where
  "fire ReloadContactsThenNotify res rs =
     loadContacts res @
     [AddNotification (Str (ascii ''contact'')) (check_mark @ ascii '' Contacts updated'')]"
| "fire LoadDashboardData res rs = loadDashboardData rs"

section \<open>Chat session\<close>

text \<open>The \<open>catch\<close> block of \<open>handleGroqChat\<close>.\<close>

definition groq_catch :: "jsstring \<Rightarrow> effect list" where
  "groq_catch msg =
     [ConsoleError (ascii ''Groq chat error:''),
      AddNotification (Str (ascii ''groq'')) (cross_mark @ ascii '' Chat error: '' @ msg)]"

text \<open>
  \<^verbatim>\<open>
  const handleGroqChat = async () => {
    if (!groqInput.trim()) return;
    const userMessage = { role: 'user', content: groqInput, timestamp: new Date().toISOString() };
    const updatedHistory = [...chatHistory, userMessage];
    setChatHistory(updatedHistory);
    saveChatHistory(updatedHistory);
    setGroqInput('');
    setGroqLoading(true);
    try {
      const res = await fetch(`${API_URL}/groq/chat`, {
        method: 'POST',
        headers: { 'Content-Type': 'application/json' },
        body: JSON.stringify({
          message: userMessage.content,
          context: {
            task_backlog: tasks.length,
            energy_level: context?.energy_level,
            weather: weather?.condition,
            upcoming_events: events.length
          }
        })
      });
      const data = await res.json();
      if (data.success) {
        const aiMessage = { role: 'assistant', content: data.response,
          timestamp: new Date().toISOString(), model: data.model, tokens: data.tokens_used };
        const finalHistory = [...updatedHistory, aiMessage];
        setChatHistory(finalHistory);
        saveChatHistory(finalHistory);
        addNotification('groq', '<robot> Martin responded');
      } else {
        addNotification('groq', `<cross> Error: ${data.error}`);
      }
    } catch (error) {
      console.error('Groq chat error:', error);
      addNotification('groq', `<cross> Chat error: ${error.message}`);
    } finally {
      setGroqLoading(false);
    }
  };
  \<close>
  \<open>sent\<close> and \<open>answered\<close> are the instants of the two \<open>new Date()\<close>. Building the
  request body reads \<open>tasks.length\<close> and \<open>events.length\<close> inside the \<open>try\<close> block,
  which throws before the request when one of the two is \<open>null\<close> or \<open>undefined\<close>.
\<close>

definition handleGroqChat ::
  "app \<Rightarrow> nat \<Rightarrow> nat \<Rightarrow> engine \<Rightarrow> fetch_result \<Rightarrow> effect list" where
  "handleGroqChat s sent answered eng res =
     (if trim (groqInput s) = [] then []
      else
        (let userMessage =
               \<lparr>role = User, content = Str (groqInput s), timestamp = sent,
                model = Undefined, tokens = Undefined\<rparr>;
             updatedHistory = chatHistory s @ [userMessage]
         in
           [SetChatHistory updatedHistory, SaveChatHistory updatedHistory,
            SetGroqInput [], SetGroqLoading True] @
           (if nullish (tasks s) \<or> nullish (events s)
            then groq_catch (type_error eng (ReadOfNullish (ascii ''length'')))
            else
              Post (API_URL @ ascii ''/groq/chat'')
                (Obj [(ascii ''message'', content userMessage),
                      (ascii ''context'',
                       Obj [(ascii ''task_backlog'', get_prop (tasks s) (ascii ''length'')),
                            (ascii ''energy_level'',
                             opt_prop (context' s) (ascii ''energy_level'')),
                            (ascii ''weather'', opt_prop (weather s) (ascii ''condition'')),
                            (ascii ''upcoming_events'',
                             get_prop (events s) (ascii ''length''))])]) #
              (case res of
                 FetchRejected msg \<Rightarrow> groq_catch msg
               | JsonRejected msg \<Rightarrow> groq_catch msg
               | Json data \<Rightarrow>
                   if nullish data
                   then groq_catch (type_error eng (ReadOfNullish (ascii ''success'')))
                   else if truthy (get_prop data (ascii ''success'')) then
                     (let aiMessage =
                            \<lparr>role = Assistant,
                             content = get_prop data (ascii ''response''),
                             timestamp = answered,
                             model = get_prop data (ascii ''model''),
                             tokens = get_prop data (ascii ''tokens_used'')\<rparr>;
                          finalHistory = updatedHistory @ [aiMessage]
                      in [SetChatHistory finalHistory, SaveChatHistory finalHistory,
                          AddNotification (Str (ascii ''groq''))
                            (robot_face @ ascii '' Martin responded'')])
                   else
                     [AddNotification (Str (ascii ''groq''))
                        (cross_mark @ ascii '' Error: '' @
                         to_string (get_prop data (ascii ''error'')))])) @
           [SetGroqLoading False]))"

section \<open>Sign-out\<close>

text \<open>
  \<^verbatim>\<open>
  onClick={() => { localStorage.removeItem('pos_auth');
                   localStorage.removeItem('pos_notifications');
                   setIsAuthenticated(false); }}
  \<close>
\<close>

definition signOut :: "effect list" where
  "signOut = [RemoveItem pos_auth, RemoveItem pos_notifications, SetIsAuthenticated False]"

section \<open>Pagination\<close>

definition itemsPerPage :: int where
  "itemsPerPage = 5"

text \<open>
  \<^verbatim>\<open>
  const startIndex = (contactPage - 1) * itemsPerPage;
  const paginatedContacts = contacts.slice(startIndex, startIndex + itemsPerPage);
  \<close>
  \<open>page\<close> is \<open>contactPage\<close> and \<open>items\<close> the array \<open>contacts\<close>. The task, event and
  email views compute their pages by the same two lines.
\<close>

definition startIndex :: "int \<Rightarrow> int" where
  "startIndex page = (page - 1) * itemsPerPage"

definition paginatedContacts :: "int \<Rightarrow> 'a list \<Rightarrow> 'a list" where
  "paginatedContacts page items =
     slice items (startIndex page) (startIndex page + itemsPerPage)"

text \<open>
  \<^verbatim>\<open>
  const Pagination = ({ currentPage, totalItems, itemsPerPage, onPageChange }) => {
    const totalPages = Math.ceil(totalItems / itemsPerPage);
    if (totalPages <= 1) return null;
    return ( ...
        <button onClick={() => onPageChange(currentPage - 1)} disabled={currentPage === 1}
        <span>Page {currentPage} of {totalPages}</span>
        <button onClick={() => onPageChange(currentPage + 1)} disabled={currentPage === totalPages}
    ... );
  };
  \<close>
  \<open>None\<close> is the bar that is not rendered; a rendered bar is its two buttons, each
  disabled or not.
\<close>

definition totalPages :: "nat \<Rightarrow> int" where
  "totalPages totalItems = (int totalItems + itemsPerPage - 1) div itemsPerPage"

record pagination_bar =
  prevDisabled :: bool
  nextDisabled :: bool

definition Pagination :: "int \<Rightarrow> nat \<Rightarrow> pagination_bar option" where
  "Pagination currentPage totalItems =
     (if totalPages totalItems \<le> 1 then None
      else Some \<lparr>prevDisabled = (currentPage = 1),
                 nextDisabled = (currentPage = totalPages totalItems)\<rparr>)"

text \<open>A click on the previous or the next button of the contact view, where it can be made.\<close>

definition clickPrev :: "int \<Rightarrow> nat \<Rightarrow> effect list" where
  "clickPrev currentPage totalItems =
     (case Pagination currentPage totalItems of
        None \<Rightarrow> []
      | Some bar \<Rightarrow> if prevDisabled bar then [] else [SetContactPage (currentPage - 1)])"

definition clickNext :: "int \<Rightarrow> nat \<Rightarrow> effect list" where
  "clickNext currentPage totalItems =
     (case Pagination currentPage totalItems of
        None \<Rightarrow> []
      | Some bar \<Rightarrow> if nextDisabled bar then [] else [SetContactPage (currentPage + 1)])"

section \<open>Initial state\<close>

text \<open>
  The initial values of the \<open>useState\<close> calls of \<open>App\<close>, over a given durable storage
  and with no timer pending.
\<close>

definition initial_app :: "(jsstring \<rightharpoonup> stored) \<Rightarrow> app" where
  "initial_app store =
     \<lparr>isAuthenticated = False, query = [], loading = False, response = Null,
      context' = Null, avatars = Arr [], tasks = Arr [], events = Arr [], emails = Arr [],
      contacts = Arr [], weather = Null, notifications = [], taskPage = 1, eventPage = 1,
      emailPage = 1, contactPage = 1, chatHistory = [], groqLoading = False,
      groqInput = [], localStorage = store, timers = []\<rparr>"

section \<open>Properties of the notification feed\<close>

lemma slice_from_0: "slice xs 0 (int n) = take n xs"
  by (simp add: slice_def Let_def min_def)

lemma addNotification_eq:
  "addNotification feed now ty msg = take 20 (newNotif now ty msg # feed)"
  using slice_from_0 [of "newNotif now ty msg # feed" 20]
  by (simp add: addNotification_def)

lemma push_eq: "push feed p = take 20 (created p # feed)"
  by (simp add: push_def created_def addNotification_eq)

lemma take_append_take: "take n (ys @ take n xs) = take n (ys @ xs)"
  by (induction ys arbitrary: n) (simp_all add: take_Cons')

lemma pushes_eq:
  "ps \<noteq> [] \<Longrightarrow> pushes feed ps = take 20 (rev (map created ps) @ feed)"
proof (induction ps arbitrary: feed)
  case Nil
  then show ?case by simp
next
  case (Cons p ps)
  show ?case
  proof (cases "ps = []")
    case True
    then show ?thesis by (simp add: push_eq)
  next
    case False
    then have "pushes (push feed p) ps = take 20 (rev (map created ps) @ push feed p)"
      by (rule Cons.IH)
    also have "\<dots> = take 20 (rev (map created ps) @ created p # feed)"
      unfolding push_eq by (rule take_append_take)
    finally show ?thesis by simp
  qed
qed

lemma n_id_created: "n_id (created p) = fst p"
  by (simp add: created_def newNotif_def)

lemma feed_bound_fold:
  assumes "length (notifications c) \<le> 20"
  shows "length (notifications s) \<le> 20 \<Longrightarrow>
         length (notifications (fold (apply_effect c now) es s)) \<le> 20"
proof (induction es arbitrary: s)
  case Nil
  then show ?case by simp
next
  case (Cons e es)
  have "length (notifications (apply_effect c now e s)) \<le> 20"
    using assms Cons.prems
    by (cases e) (simp_all add: Let_def addNotification_eq markNotificationRead_def)
  then show ?case by (simp add: Cons.IH)
qed

text \<open>
  The pushes of one handler run all compute from the feed of the handler's closure, so
  the feed after the run is the one the last push of the run computed.
\<close>

lemma last_push_of_a_run:
  assumes "\<forall>e\<in>set es. \<forall>i. e \<noteq> MarkNotificationRead i"
  shows "notifications (fold (apply_effect c now) es s) =
     (if pushed es = [] then notifications s
      else addNotification (notifications c) now (fst (last (pushed es)))
             (snd (last (pushed es))))"
  using assms
proof (induction es arbitrary: s)
  case Nil
  then show ?case by simp
next
  case (Cons e es)
  then have step: "notifications (fold (apply_effect c now) es (apply_effect c now e s)) =
     (if pushed es = [] then notifications (apply_effect c now e s)
      else addNotification (notifications c) now (fst (last (pushed es)))
             (snd (last (pushed es))))"
    by simp
  from Cons.prems show ?case
    unfolding fold_Cons comp_apply step by (cases e) (simp_all add: Let_def)
qed

lemma push_call_feed:
  "notifications (apply_effect c (fst (snd x)) (AddNotification (fst (snd (snd x))) (snd (snd (snd x)))) s) =
     take 20 (created (snd x) # notifications c)"
  by (simp add: Let_def addNotification_eq created_def)

lemma push_call_stored:
  "localStorage (apply_effect c now (AddNotification ty m) s) pos_notifications =
     Some (StoredFeed (notifications (apply_effect c now (AddNotification ty m) s)))"
  by (simp add: Let_def)

lemma push_calls_kept:
  assumes "\<forall>f\<in>set (s # older). \<exists>kept. subseq kept (rev (map (\<lambda>c. created (snd c)) done)) \<and>
             notifications f = take 20 (kept @ init)"
  shows "\<exists>kept. subseq kept (rev (map (\<lambda>c. created (snd c)) (done @ cs))) \<and>
             notifications (push_calls s older cs) = take 20 (kept @ init)"
  using assms
proof (induction cs arbitrary: s older "done")
  case Nil
  then show ?case by simp
next
  case (Cons c cs)
  let ?closure = "(s # older) ! min (fst c) (length older)"
  let ?s' = "apply_effect ?closure (fst (snd c))
          (AddNotification (fst (snd (snd c))) (snd (snd (snd c)))) s"
  have "?closure \<in> set (s # older)"
    by (rule nth_mem) simp
  with Cons.prems obtain kept where
    kept: "subseq kept (rev (map (\<lambda>c. created (snd c)) done))"
    and feed: "notifications ?closure = take 20 (kept @ init)"
    by blast
  have new: "notifications ?s' = take 20 ((created (snd c) # kept) @ init)"
    unfolding push_call_feed feed using take_append_take [of 20 "[created (snd c)]" "kept @ init"]
    by simp
  have "subseq (created (snd c) # kept) (rev (map (\<lambda>c. created (snd c)) (done @ [c])))"
    using kept by simp
  with new have first: "\<exists>kept. subseq kept (rev (map (\<lambda>c. created (snd c)) (done @ [c]))) \<and>
             notifications ?s' = take 20 (kept @ init)"
    by blast
  have rest: "\<forall>f\<in>set (s # older). \<exists>kept. subseq kept (rev (map (\<lambda>c. created (snd c)) (done @ [c]))) \<and>
             notifications f = take 20 (kept @ init)"
  proof
    fix f assume "f \<in> set (s # older)"
    with Cons.prems obtain k where "subseq k (rev (map (\<lambda>c. created (snd c)) done))"
      and "notifications f = take 20 (k @ init)"
      by blast
    then show "\<exists>kept. subseq kept (rev (map (\<lambda>c. created (snd c)) (done @ [c]))) \<and>
             notifications f = take 20 (kept @ init)"
      by (auto intro: subseq_Cons')
  qed
  have "\<forall>f\<in>set (?s' # s # older). \<exists>kept. subseq kept (rev (map (\<lambda>c. created (snd c)) (done @ [c]))) \<and>
             notifications f = take 20 (kept @ init)"
    using first rest by simp
  then have "\<exists>kept. subseq kept (rev (map (\<lambda>c. created (snd c)) ((done @ [c]) @ cs))) \<and>
             notifications (push_calls ?s' (s # older) cs) = take 20 (kept @ init)"
    by (rule Cons.IH)
  then show ?case by simp
qed

lemma push_calls_newest:
  "cs \<noteq> [] \<Longrightarrow>
     (\<exists>rest. notifications (push_calls s older cs) = created (snd (last cs)) # rest) \<and>
     localStorage (push_calls s older cs) pos_notifications =
       Some (StoredFeed (notifications (push_calls s older cs)))"
proof (induction cs arbitrary: s older)
  case Nil
  then show ?case by simp
next
  case (Cons c cs)
  show ?case
  proof (cases "cs = []")
    case True
    then show ?thesis
      by (simp add: push_call_feed push_call_stored del: apply_effect.simps)
  next
    case False
    then show ?thesis using Cons.IH by (simp del: apply_effect.simps)
  qed
qed

lemma push_calls_fresh:
  "\<forall>c\<in>set cs. fst c = 0 \<Longrightarrow>
     notifications (push_calls s older cs) =
       (if cs = [] then notifications s
        else take 20 (rev (map (\<lambda>c. created (snd c)) cs) @ notifications s))"
proof (induction cs arbitrary: s older)
  case Nil
  then show ?case by simp
next
  case (Cons c cs)
  then have age: "fst c = 0" and ages: "\<forall>c\<in>set cs. fst c = 0"
    by simp_all
  let ?s' = "apply_effect s (fst (snd c))
          (AddNotification (fst (snd (snd c))) (snd (snd (snd c)))) s"
  have step: "notifications (push_calls ?s' (s # older) cs) =
       (if cs = [] then notifications ?s'
        else take 20 (rev (map (\<lambda>c. created (snd c)) cs) @ notifications ?s'))"
    using ages by (rule Cons.IH)
  show ?case
  proof (cases "cs = []")
    case True
    with age show ?thesis by (simp add: push_call_feed del: apply_effect.simps)
  next
    case False
    with step have "notifications (push_calls ?s' (s # older) cs) =
        take 20 (rev (map (\<lambda>c. created (snd c)) cs) @ notifications ?s')"
      by simp
    also have "\<dots> = take 20 (rev (map (\<lambda>c. created (snd c)) cs) @
                            take 20 (created (snd c) # notifications s))"
      by (simp only: push_call_feed)
    also have "\<dots> = take 20 (rev (map (\<lambda>c. created (snd c)) cs) @
                            created (snd c) # notifications s)"
      by (rule take_append_take)
    finally have "notifications (push_calls ?s' (s # older) cs) =
        take 20 (rev (map (\<lambda>c. created (snd c)) (c # cs)) @ notifications s)"
      by simp
    with age show ?thesis
      by (simp del: apply_effect.simps)
  qed
qed


lemma pushes_of_fresh_renders:
  assumes "length feed \<le> 20"
  shows "pushes feed ps = take 20 (rev (map created ps) @ feed)"
  using assms by (cases "ps = []") (simp_all add: pushes_eq)

text \<open>
  C1. After any sequence of push calls, each made by the closure of any render so far,
  the feed of the state has at most 20 entries and is ordered newest first by creation:
  it is a selection of the created notifications in reverse order of creation, followed
  by the feed the sequence started from, cut to the first 20, and after a call its first
  entry is the notification of that call, which is also what the storage holds. When
  every call is made from a render of the current state, the selection is all of them.
  The calls of one handler run read one feed, that of the run's render, so after a run
  with a push the feed is the notification of the last push of the run before the feed
  of that render. The sequence starts from a feed within the bound.
\<close>

theorem feed_bounded_newest_first:
  assumes "length (notifications s) \<le> 20"
  shows "length (notifications (push_calls s [] cs)) \<le> 20 \<and>
         (\<exists>kept. subseq kept (rev (map (\<lambda>c. created (snd c)) cs)) \<and>
            notifications (push_calls s [] cs) = take 20 (kept @ notifications s)) \<and>
         (cs \<noteq> [] \<longrightarrow>
            (\<exists>rest. notifications (push_calls s [] cs) = created (snd (last cs)) # rest) \<and>
            localStorage (push_calls s [] cs) pos_notifications =
              Some (StoredFeed (notifications (push_calls s [] cs)))) \<and>
         ((\<forall>c\<in>set cs. fst c = 0) \<longrightarrow>
            notifications (push_calls s [] cs) =
              take 20 (rev (map (\<lambda>c. created (snd c)) cs) @ notifications s) \<and>
            notifications (push_calls s [] cs) = pushes (notifications s) (map snd cs)) \<and>
         ((\<forall>e\<in>set es. \<forall>i. e \<noteq> MarkNotificationRead i) \<longrightarrow>
            notifications (run s now es) =
              (if pushed es = [] then notifications s
               else take 20 (newNotif now (fst (last (pushed es))) (snd (last (pushed es))) #
                             notifications s))) \<and>
         length (notifications (run s now es)) \<le> 20"
proof -
  have start: "\<forall>f\<in>set (s # []). \<exists>kept. subseq kept (rev (map (\<lambda>c. created (snd c)) [])) \<and>
             notifications f = take 20 (kept @ notifications s)"
    using assms by (simp add: exI [of _ "[]"])
  have selection: "\<exists>kept. subseq kept (rev (map (\<lambda>c. created (snd c)) cs)) \<and>
            notifications (push_calls s [] cs) = take 20 (kept @ notifications s)"
    using push_calls_kept [OF start, of cs] by simp
  then have bound: "length (notifications (push_calls s [] cs)) \<le> 20"
    by auto
  have newest: "cs \<noteq> [] \<longrightarrow>
            (\<exists>rest. notifications (push_calls s [] cs) = created (snd (last cs)) # rest) \<and>
            localStorage (push_calls s [] cs) pos_notifications =
              Some (StoredFeed (notifications (push_calls s [] cs)))"
    using push_calls_newest [of cs s "[]"] by blast
  have fresh: "(\<forall>c\<in>set cs. fst c = 0) \<longrightarrow>
            notifications (push_calls s [] cs) =
              take 20 (rev (map (\<lambda>c. created (snd c)) cs) @ notifications s) \<and>
            notifications (push_calls s [] cs) = pushes (notifications s) (map snd cs)"
  proof
    assume ages: "\<forall>c\<in>set cs. fst c = 0"
    have "notifications (push_calls s [] cs) =
              take 20 (rev (map (\<lambda>c. created (snd c)) cs) @ notifications s)"
      using push_calls_fresh [OF ages, of s "[]"] assms by (cases "cs = []") simp_all
    moreover have "pushes (notifications s) (map snd cs) =
              take 20 (rev (map (\<lambda>c. created (snd c)) cs) @ notifications s)"
      using pushes_of_fresh_renders [OF assms, of "map snd cs"] by (simp add: comp_def)
    ultimately show "notifications (push_calls s [] cs) =
              take 20 (rev (map (\<lambda>c. created (snd c)) cs) @ notifications s) \<and>
            notifications (push_calls s [] cs) = pushes (notifications s) (map snd cs)"
      by simp
  qed
  have handler: "(\<forall>e\<in>set es. \<forall>i. e \<noteq> MarkNotificationRead i) \<longrightarrow>
            notifications (run s now es) =
              (if pushed es = [] then notifications s
               else take 20 (newNotif now (fst (last (pushed es))) (snd (last (pushed es))) #
                             notifications s))"
    using last_push_of_a_run [of es s now s] by (simp add: run_def addNotification_eq)
  have runs: "length (notifications (run s now es)) \<le> 20"
    using assms by (simp add: run_def feed_bound_fold)
  show ?thesis
    by (intro conjI) (rule bound selection newest fresh handler runs)+
qed

theorem feed_bounded_newest_first_witness:
  "length (notifications (initial_app Map.empty)) \<le> 20 \<and>
   notifications (push_calls (initial_app Map.empty) []
      [(0, 1, Str (ascii ''system''), ascii ''a''), (0, 2, Str (ascii ''groq''), ascii ''b'')]) =
     [newNotif 2 (Str (ascii ''groq'')) (ascii ''b''),
      newNotif 1 (Str (ascii ''system'')) (ascii ''a'')] \<and>
   notifications (push_calls (initial_app Map.empty) []
      [(0, 5, Str (ascii ''task''), ascii ''x''), (1, 5, Str (ascii ''contact''), ascii ''y'')]) =
     [newNotif 5 (Str (ascii ''contact'')) (ascii ''y'')]"
proof -
  have start: "length (notifications (initial_app Map.empty)) \<le> 20"
    by (simp add: initial_app_def)
  note fresh = conjunct1 [OF conjunct2 [OF conjunct2 [OF conjunct2
    [OF feed_bounded_newest_first [OF start,
      of "[(0, 1, Str (ascii ''system''), ascii ''a''), (0, 2, Str (ascii ''groq''), ascii ''b'')]"]]]]]
  have two: "notifications (push_calls (initial_app Map.empty) []
      [(0, 1, Str (ascii ''system''), ascii ''a''), (0, 2, Str (ascii ''groq''), ascii ''b'')]) =
     [newNotif 2 (Str (ascii ''groq'')) (ascii ''b''),
      newNotif 1 (Str (ascii ''system'')) (ascii ''a'')]"
    using fresh by (simp add: created_def initial_app_def)
  have one: "notifications (push_calls (initial_app Map.empty) []
      [(0, 5, Str (ascii ''task''), ascii ''x''), (1, 5, Str (ascii ''contact''), ascii ''y'')]) =
     [newNotif 5 (Str (ascii ''contact'')) (ascii ''y'')]"
    by (simp add: Let_def addNotification_eq initial_app_def)
  show ?thesis
    using start two one by blast
qed

text \<open>
  C8. The id of a notification is the clock reading of its push, so two pushes at one
  reading leave two notifications with one id in the feed.
\<close>

theorem duplicate_id_counterexample:
  "\<not> distinct (map n_id (pushes []
       [(1000, Str (ascii ''groq''), ascii ''a''), (1000, Str (ascii ''groq''), ascii ''b'')]))"
  by (simp add: push_eq n_id_created)

text \<open>
  C8, amended. When every push reads a clock value greater than the one before, and the
  feed the sequence starts from has pairwise distinct ids, all below those readings,
  no two notifications of the resulting feed share an id.
\<close>

theorem ids_unique_under_advancing_clock:
  assumes "sorted_wrt (<) (map fst ps)"
    and "distinct (map n_id feed)"
    and "\<forall>n\<in>set feed. \<forall>p\<in>set ps. n_id n < fst p"
  shows "distinct (map n_id (pushes feed ps))"
proof (cases "ps = []")
  case True
  with assms show ?thesis by simp
next
  case False
  have "distinct (map fst ps)"
    using assms(1) by (simp add: strict_sorted_iff)
  moreover have "set (map fst ps) \<inter> set (map n_id feed) = {}"
    using assms(3) by fastforce
  ultimately have "distinct (rev (map fst ps) @ map n_id feed)"
    using assms(2) by simp
  then have "distinct (take 20 (rev (map fst ps) @ map n_id feed))"
    by (rule distinct_take)
  moreover have "map n_id (pushes feed ps) = take 20 (rev (map fst ps) @ map n_id feed)"
    using False by (simp add: pushes_eq take_map rev_map n_id_created comp_def)
  ultimately show ?thesis by simp
qed

theorem ids_unique_under_advancing_clock_witness:
  "sorted_wrt (<) (map fst [(1000::nat, Str (ascii ''groq''), ascii ''a''), (1001, Str (ascii ''groq''), ascii ''b'')]) \<and>
   distinct (map n_id [newNotif 999 (Str (ascii ''system'')) (ascii ''c'')]) \<and>
   n_id (newNotif 999 (Str (ascii ''system'')) (ascii ''c'')) < 1000 \<and>
   distinct (map n_id (pushes [newNotif 999 (Str (ascii ''system'')) (ascii ''c'')]
       [(1000, Str (ascii ''groq''), ascii ''a''), (1001, Str (ascii ''groq''), ascii ''b'')]))"
  using ids_unique_under_advancing_clock
    [of "[(1000, Str (ascii ''groq''), ascii ''a''), (1001, Str (ascii ''groq''), ascii ''b'')]"
        "[newNotif 999 (Str (ascii ''system'')) (ascii ''c'')]"]
  by (simp add: newNotif_def)

section \<open>Marking a notification read\<close>

lemma markNotificationRead_twice:
  "markNotificationRead (markNotificationRead feed i) i = markNotificationRead feed i"
  by (simp add: markNotificationRead_def)

lemma markNotificationRead_absent:
  "i \<notin> n_id ` set feed \<Longrightarrow> markNotificationRead feed i = feed"
  by (induction feed) (simp_all add: markNotificationRead_def)

lemma run_mark:
  "run s now [MarkNotificationRead i] =
     s\<lparr>notifications := markNotificationRead (notifications s) i,
       localStorage := (localStorage s)(pos_notifications \<mapsto>
          StoredFeed (markNotificationRead (notifications s) i))\<rparr>"
  by (simp add: run_def Let_def)

lemma mark_twice_in_one_render:
  "fold (apply_effect s now) [MarkNotificationRead i, MarkNotificationRead i] s =
     run s now [MarkNotificationRead i]"
  by (simp add: run_def Let_def)

text \<open>
  C7. A click on a notification sets the feed of the state to the feed of the render
  with \<open>read\<close> set on every notification of the clicked id, and stores that feed: the
  feed keeps its length; at each position a notification with the id is the old one
  with \<open>read\<close> set and every other notification is the old one; the feed is unchanged
  when no notification has the id. A second click gives the state and the storage of
  the first, whether it is made after the component has rendered again or from the
  same render. No other state variable changes.
\<close>

theorem mark_read_idempotent:
  "notifications (run s now [MarkNotificationRead i]) = markNotificationRead (notifications s) i \<and>
   localStorage (run s now [MarkNotificationRead i]) pos_notifications =
     Some (StoredFeed (markNotificationRead (notifications s) i)) \<and>
   run s now [MarkNotificationRead i] =
     s\<lparr>notifications := markNotificationRead (notifications s) i,
       localStorage := (localStorage s)(pos_notifications \<mapsto>
          StoredFeed (markNotificationRead (notifications s) i))\<rparr> \<and>
   length (notifications (run s now [MarkNotificationRead i])) = length (notifications s) \<and>
   (\<forall>k < length (notifications s).
      notifications (run s now [MarkNotificationRead i]) ! k =
        (if n_id (notifications s ! k) = i then (notifications s ! k)\<lparr>n_read := True\<rparr>
         else notifications s ! k)) \<and>
   (i \<notin> n_id ` set (notifications s) \<longrightarrow>
      notifications (run s now [MarkNotificationRead i]) = notifications s) \<and>
   run (run s now [MarkNotificationRead i]) later [MarkNotificationRead i] =
     run s now [MarkNotificationRead i] \<and>
   fold (apply_effect s now) [MarkNotificationRead i, MarkNotificationRead i] s =
     run s now [MarkNotificationRead i] \<and>
   markNotificationRead (markNotificationRead feed i) i = markNotificationRead feed i"
proof -
  have twice: "run (run s now [MarkNotificationRead i]) later [MarkNotificationRead i] =
     run s now [MarkNotificationRead i]"
    unfolding run_mark by (simp add: markNotificationRead_twice)
  have feed: "notifications (run s now [MarkNotificationRead i]) =
      markNotificationRead (notifications s) i"
    and stored: "localStorage (run s now [MarkNotificationRead i]) pos_notifications =
     Some (StoredFeed (markNotificationRead (notifications s) i))"
    unfolding run_mark by simp_all
  have size: "length (notifications (run s now [MarkNotificationRead i])) =
      length (notifications s)"
    unfolding feed by (simp add: markNotificationRead_def)
  have each: "\<forall>k < length (notifications s).
      notifications (run s now [MarkNotificationRead i]) ! k =
        (if n_id (notifications s ! k) = i then (notifications s ! k)\<lparr>n_read := True\<rparr>
         else notifications s ! k)"
    unfolding feed by (simp add: markNotificationRead_def)
  have absent: "i \<notin> n_id ` set (notifications s) \<longrightarrow>
      notifications (run s now [MarkNotificationRead i]) = notifications s"
    unfolding feed using markNotificationRead_absent by blast
  show ?thesis
    by (intro conjI)
       (rule feed stored run_mark size each absent twice mark_twice_in_one_render
          markNotificationRead_twice)+
qed

theorem mark_read_idempotent_witness:
  "notifications (run ((initial_app Map.empty)
       \<lparr>notifications := [newNotif 7 (Str (ascii ''groq'')) (ascii ''a''),
                           newNotif 5 (Str (ascii ''system'')) (ascii ''b'')]\<rparr>) 9
       [MarkNotificationRead 5]) =
     [newNotif 7 (Str (ascii ''groq'')) (ascii ''a''),
      (newNotif 5 (Str (ascii ''system'')) (ascii ''b''))\<lparr>n_read := True\<rparr>] \<and>
   localStorage (run ((initial_app Map.empty)
       \<lparr>notifications := [newNotif 7 (Str (ascii ''groq'')) (ascii ''a''),
                           newNotif 5 (Str (ascii ''system'')) (ascii ''b'')]\<rparr>) 9
       [MarkNotificationRead 5]) pos_notifications =
     Some (StoredFeed [newNotif 7 (Str (ascii ''groq'')) (ascii ''a''),
      (newNotif 5 (Str (ascii ''system'')) (ascii ''b''))\<lparr>n_read := True\<rparr>]) \<and>
   6 \<notin> n_id ` set [newNotif 7 (Str (ascii ''groq'')) (ascii ''a''),
                        newNotif 5 (Str (ascii ''system'')) (ascii ''b'')] \<and>
   notifications (run ((initial_app Map.empty)
       \<lparr>notifications := [newNotif 7 (Str (ascii ''groq'')) (ascii ''a''),
                           newNotif 5 (Str (ascii ''system'')) (ascii ''b'')]\<rparr>) 9
       [MarkNotificationRead 6]) =
     [newNotif 7 (Str (ascii ''groq'')) (ascii ''a''),
      newNotif 5 (Str (ascii ''system'')) (ascii ''b'')]"
proof -
  let ?s = "(initial_app Map.empty)
       \<lparr>notifications := [newNotif 7 (Str (ascii ''groq'')) (ascii ''a''),
                           newNotif 5 (Str (ascii ''system'')) (ascii ''b'')]\<rparr>"
  note clicked = mark_read_idempotent [of ?s 9 5]
  note feed = conjunct1 [OF clicked]
  note stored = conjunct1 [OF conjunct2 [OF clicked]]
  note missed = mark_read_idempotent [of ?s 9 6]
  note absent = conjunct1 [OF conjunct2 [OF conjunct2 [OF conjunct2 [OF conjunct2
    [OF conjunct2 [OF missed]]]]]]
  have no6: "6 \<notin> n_id ` set (notifications ?s)"
    by (simp add: newNotif_def)
  show ?thesis
    using feed stored absent no6
    by (simp add: markNotificationRead_def newNotif_def)
qed

section \<open>Properties of sign-out\<close>

lemma storage_keys_distinct:
  "pos_auth \<noteq> pos_notifications" "pos_auth \<noteq> pos_chat_history"
  "pos_notifications \<noteq> pos_chat_history"
  by (simp_all add: pos_auth_def pos_notifications_def pos_chat_history_def ascii_def)

lemma run_signOut:
  "run s now signOut =
     s\<lparr>localStorage := (localStorage s)(pos_auth := None, pos_notifications := None),
       isAuthenticated := False\<rparr>"
  by (simp add: run_def signOut_def)

text \<open>
  C10. Sign-out removes the auth record and the notification feed from the durable
  storage and clears the authenticated flag. The stored chat transcript and every
  other stored key keep their values, and no other state variable changes.
\<close>

theorem sign_out_frame:
  "localStorage (run s now signOut) pos_auth = None \<and>
   localStorage (run s now signOut) pos_notifications = None \<and>
   \<not> isAuthenticated (run s now signOut) \<and>
   localStorage (run s now signOut) pos_chat_history = localStorage s pos_chat_history \<and>
   (\<forall>k. k \<noteq> pos_auth \<and> k \<noteq> pos_notifications \<longrightarrow>
      localStorage (run s now signOut) k = localStorage s k) \<and>
   run s now signOut =
     s\<lparr>localStorage := (localStorage s)(pos_auth := None, pos_notifications := None),
       isAuthenticated := False\<rparr>"
  unfolding run_signOut using storage_keys_distinct by simp

theorem sign_out_frame_witness:
  "ascii ''theme'' \<noteq> pos_auth \<and> ascii ''theme'' \<noteq> pos_notifications \<and>
   localStorage
     (run ((initial_app
              [pos_auth \<mapsto> StoredAuth (Obj [(ascii ''email'', Str (ascii ''a@b.c''))]),
               pos_notifications \<mapsto> StoredFeed [],
               pos_chat_history \<mapsto> StoredChat [],
               ascii ''theme'' \<mapsto> StoredText (ascii ''dark'')])
            \<lparr>isAuthenticated := True\<rparr>) 0 signOut) (ascii ''theme'') =
     Some (StoredText (ascii ''dark''))"
  using sign_out_frame
    [of "(initial_app
              [pos_auth \<mapsto> StoredAuth (Obj [(ascii ''email'', Str (ascii ''a@b.c''))]),
               pos_notifications \<mapsto> StoredFeed [],
               pos_chat_history \<mapsto> StoredChat [],
               ascii ''theme'' \<mapsto> StoredText (ascii ''dark'')])
            \<lparr>isAuthenticated := True\<rparr>" 0]
  by (simp add: initial_app_def pos_auth_def pos_notifications_def pos_chat_history_def
      ascii_def)

section \<open>Blank input to the two handlers\<close>

lemma trim_eq_Nil: "trim s = [] \<longleftrightarrow> list_all is_whitespace s"
proof
  assume "trim s = []"
  then have all: "\<forall>c\<in>set (dropWhile is_whitespace s). is_whitespace c"
    by (simp add: trim_def)
  have "dropWhile is_whitespace s = []"
  proof (rule ccontr)
    assume ne: "dropWhile is_whitespace s \<noteq> []"
    then have "\<not> is_whitespace (hd (dropWhile is_whitespace s))"
      by (rule hd_dropWhile)
    moreover have "hd (dropWhile is_whitespace s) \<in> set (dropWhile is_whitespace s)"
      using ne by (rule hd_in_set)
    ultimately show False using all by blast
  qed
  then show "list_all is_whitespace s"
    by (simp add: list_all_iff)
next
  assume "list_all is_whitespace s"
  then have blank: "dropWhile is_whitespace s = []"
    by (simp add: list_all_iff)
  show "trim s = []"
    by (simp add: trim_def blank)
qed

lemma run_Nil: "run s now [] = s"
  by (simp add: run_def)

text \<open>
  C9. When the command input is empty or holds white space only, \<open>handleSubmit\<close> makes
  no call at all: no request, no push, and the state and the storage stay as they are.
  The same holds for \<open>handleGroqChat\<close> and the chat input.
\<close>

theorem blank_input_is_noop:
  "(list_all is_whitespace (query s) \<longrightarrow>
      handleSubmit s eng res = [] \<and>
      requests (handleSubmit s eng res) = [] \<and>
      pushed (handleSubmit s eng res) = [] \<and>
      run s now (handleSubmit s eng res) = s) \<and>
   (list_all is_whitespace (groqInput s) \<longrightarrow>
      handleGroqChat s sent answered eng res = [] \<and>
      requests (handleGroqChat s sent answered eng res) = [] \<and>
      pushed (handleGroqChat s sent answered eng res) = [] \<and>
      run s now (handleGroqChat s sent answered eng res) = s)"
  by (simp add: handleSubmit_def handleGroqChat_def trim_eq_Nil run_Nil)

theorem blank_input_is_noop_witness:
  "list_all is_whitespace [32, 9, 160, 10] \<and>
   handleSubmit ((initial_app Map.empty)\<lparr>query := [32, 9, 160, 10]\<rparr>)
     \<lparr>type_error = (\<lambda>f. []), text_positive = (\<lambda>t. False)\<rparr> (Json Null) = [] \<and>
   list_all is_whitespace [] \<and>
   handleGroqChat ((initial_app Map.empty)\<lparr>query := [32, 9, 160, 10]\<rparr>) 1 2
     \<lparr>type_error = (\<lambda>f. []), text_positive = (\<lambda>t. False)\<rparr> (Json Null) = []"
  using blank_input_is_noop
    [of "(initial_app Map.empty)\<lparr>query := [32, 9, 160, 10]\<rparr>"
        "\<lparr>type_error = (\<lambda>f. []), text_positive = (\<lambda>t. False)\<rparr>" "Json Null" 0 1 2]
  by (simp add: initial_app_def is_whitespace_def)

section \<open>Failures of the two dispatching handlers\<close>

lemma run_submit_catch:
  "run s now ([SetLoading True, Post url b] @ submit_catch msg @ [SetLoading False]) =
     s\<lparr>loading := False,
       response := Obj [(ascii ''response'', Str (ascii ''Error processing request'')),
                        (ascii ''error'', Str msg)],
       notifications := addNotification (notifications s) now (Str (ascii ''system''))
                          (cross_mark @ ascii '' Error: '' @ msg),
       localStorage := (localStorage s)(pos_notifications \<mapsto> StoredFeed
                         (addNotification (notifications s) now (Str (ascii ''system''))
                            (cross_mark @ ascii '' Error: '' @ msg)))\<rparr>"
  by (simp add: run_def submit_catch_def Let_def)

lemma pushed_submit_catch:
  "pushed ([SetLoading True, Post url b] @ submit_catch msg @ [SetLoading False]) =
     [(Str (ascii ''system''), cross_mark @ ascii '' Error: '' @ msg)]"
  by (simp add: submit_catch_def)

lemma handleSubmit_rejected:
  assumes "trim (query s) \<noteq> []" and "res = FetchRejected msg \<or> res = JsonRejected msg"
  shows "handleSubmit s eng res =
     [SetLoading True,
      Post (API_URL @ ascii ''/process'') (Obj [(ascii ''query'', Str (query s))])] @
     submit_catch msg @ [SetLoading False]"
  using assms by (auto simp add: handleSubmit_def)

text \<open>
  C3. When the request of \<open>handleSubmit\<close> is rejected or its body does not parse, the
  handler ends normally, its \<open>finally\<close> clause having run. It pushes exactly one
  notification, of type \<open>system\<close> and with the error text in its message, and leaves the
  error-shaped result \<open>{ response: 'Error processing request', error: <message> }\<close>.
  The command input is kept and no timer is set.
\<close>

theorem submit_failure_is_contained:
  assumes "trim (query s) \<noteq> []"
    and "res = FetchRejected msg \<or> res = JsonRejected msg"
  shows "pushed (handleSubmit s eng res) =
           [(Str (ascii ''system''), cross_mark @ ascii '' Error: '' @ msg)] \<and>
         last (handleSubmit s eng res) = SetLoading False \<and>
         response (run s now (handleSubmit s eng res)) =
           Obj [(ascii ''response'', Str (ascii ''Error processing request'')),
                (ascii ''error'', Str msg)] \<and>
         notifications (run s now (handleSubmit s eng res)) =
           addNotification (notifications s) now (Str (ascii ''system''))
             (cross_mark @ ascii '' Error: '' @ msg) \<and>
         \<not> loading (run s now (handleSubmit s eng res)) \<and>
         query (run s now (handleSubmit s eng res)) = query s \<and>
         timers (run s now (handleSubmit s eng res)) = timers s"
  unfolding handleSubmit_rejected [OF assms] run_submit_catch pushed_submit_catch
  by simp

theorem submit_failure_is_contained_witness:
  "trim (query ((initial_app Map.empty)\<lparr>query := ascii ''add task''\<rparr>)) \<noteq> [] \<and>
   pushed (handleSubmit ((initial_app Map.empty)\<lparr>query := ascii ''add task''\<rparr>)
             \<lparr>type_error = (\<lambda>f. []), text_positive = (\<lambda>t. False)\<rparr>
             (FetchRejected (ascii ''Failed to fetch''))) =
     [(Str (ascii ''system''), cross_mark @ ascii '' Error: '' @ ascii ''Failed to fetch'')] \<and>
   response (run ((initial_app Map.empty)\<lparr>query := ascii ''add task''\<rparr>) 0
      (handleSubmit ((initial_app Map.empty)\<lparr>query := ascii ''add task''\<rparr>)
             \<lparr>type_error = (\<lambda>f. []), text_positive = (\<lambda>t. False)\<rparr>
             (FetchRejected (ascii ''Failed to fetch'')))) =
     Obj [(ascii ''response'', Str (ascii ''Error processing request'')),
          (ascii ''error'', Str (ascii ''Failed to fetch''))]"
proof -
  have nonblank: "trim (query ((initial_app Map.empty)\<lparr>query := ascii ''add task''\<rparr>)) \<noteq> []"
    by (simp add: trim_eq_Nil ascii_def is_whitespace_def)
  show ?thesis
    using nonblank
      submit_failure_is_contained [OF nonblank, of "FetchRejected (ascii ''Failed to fetch'')"
        "ascii ''Failed to fetch''"
        "\<lparr>type_error = (\<lambda>f. []), text_positive = (\<lambda>t. False)\<rparr>" 0]
    by simp
qed

lemma pushed_append: "pushed (es @ fs) = pushed es @ pushed fs"
  by (induction es rule: pushed.induct) simp_all

lemma pushed_groq_catch:
  "pushed (groq_catch msg) = [(Str (ascii ''groq''), cross_mark @ ascii '' Chat error: '' @ msg)]"
  by (simp add: groq_catch_def)

text \<open>
  The calls of a chat send that does not succeed: the user turn is set and saved, then
  come the request (unless building it throws) and one push, after a console line when
  the \<open>catch\<close> block runs.
\<close>

lemma handleGroqChat_failed:
  assumes "trim (groqInput s) \<noteq> []"
    and "res = FetchRejected msg \<or> res = JsonRejected msg \<or>
         (res = Json data \<and> \<not> nullish data \<and> \<not> truthy (get_prop data (ascii ''success'')))"
  shows "\<exists>req tail m.
     handleGroqChat s sent answered eng res =
       [SetChatHistory (chatHistory s @ [\<lparr>role = User, content = Str (groqInput s),
            timestamp = sent, model = Undefined, tokens = Undefined\<rparr>]),
        SaveChatHistory (chatHistory s @ [\<lparr>role = User, content = Str (groqInput s),
            timestamp = sent, model = Undefined, tokens = Undefined\<rparr>]),
        SetGroqInput [], SetGroqLoading True] @ req @ tail @ [SetGroqLoading False] \<and>
     pushed req = [] \<and>
     (\<forall>c now s'. fold (apply_effect c now) req s' = s') \<and>
     (tail = [AddNotification (Str (ascii ''groq'')) (cross_mark @ m)] \<or>
      tail = [ConsoleError (ascii ''Groq chat error:''),
              AddNotification (Str (ascii ''groq'')) (cross_mark @ m)])"
proof (cases "nullish (tasks s) \<or> nullish (events s)")
  case True
  with assms(1) show ?thesis
    by (intro exI [of _ "[]"]
          exI [of _ "groq_catch (type_error eng (ReadOfNullish (ascii ''length'')))"]
          exI [of _ "ascii '' Chat error: '' @
                     type_error eng (ReadOfNullish (ascii ''length''))"])
       (simp add: handleGroqChat_def groq_catch_def Let_def)
next
  case False
  let ?req = "[Post (API_URL @ ascii ''/groq/chat'')
                (Obj [(ascii ''message'', Str (groqInput s)),
                      (ascii ''context'',
                       Obj [(ascii ''task_backlog'', get_prop (tasks s) (ascii ''length'')),
                            (ascii ''energy_level'',
                             opt_prop (context' s) (ascii ''energy_level'')),
                            (ascii ''weather'', opt_prop (weather s) (ascii ''condition'')),
                            (ascii ''upcoming_events'',
                             get_prop (events s) (ascii ''length''))])])]"
  from assms(2) consider
      (rejected) "res = FetchRejected msg \<or> res = JsonRejected msg"
    | (refused) "res = Json data" "\<not> nullish data"
        "\<not> truthy (get_prop data (ascii ''success''))"
    by blast
  then show ?thesis
  proof cases
    case rejected
    with assms(1) False show ?thesis
      by (intro exI [of _ ?req] exI [of _ "groq_catch msg"]
            exI [of _ "ascii '' Chat error: '' @ msg"])
         (auto simp add: handleGroqChat_def groq_catch_def Let_def)
  next
    case refused
    with assms(1) False show ?thesis
      by (intro exI [of _ ?req]
            exI [of _ "[AddNotification (Str (ascii ''groq''))
               (cross_mark @ ascii '' Error: '' @ to_string (get_prop data (ascii ''error'')))]"]
            exI [of _ "ascii '' Error: '' @ to_string (get_prop data (ascii ''error''))"])
         (simp add: handleGroqChat_def Let_def)
  qed
qed


text \<open>
  C2. A chat send on a transcript of \<open>n\<close> turns appends the user turn. When the request
  is rejected, its body does not parse, or the body has no truthy \<open>success\<close>, no
  assistant turn follows: the transcript, in the state and in the storage, is the old
  one with the user turn at its end, of length \<open>n + 1\<close>. The handler pushes exactly one
  notification, of type \<open>groq\<close>, whose message begins with the cross mark.
\<close>

theorem failed_send_keeps_user_turn:
  assumes "trim (groqInput s) \<noteq> []"
    and "res = FetchRejected msg \<or> res = JsonRejected msg \<or>
         (res = Json data \<and> \<not> nullish data \<and> \<not> truthy (get_prop data (ascii ''success'')))"
  shows "chatHistory (run s now (handleGroqChat s sent answered eng res)) =
           chatHistory s @ [\<lparr>role = User, content = Str (groqInput s), timestamp = sent,
                             model = Undefined, tokens = Undefined\<rparr>] \<and>
         length (chatHistory (run s now (handleGroqChat s sent answered eng res))) =
           length (chatHistory s) + 1 \<and>
         localStorage (run s now (handleGroqChat s sent answered eng res)) pos_chat_history =
           Some (StoredChat (chatHistory s @ [\<lparr>role = User, content = Str (groqInput s),
                             timestamp = sent, model = Undefined, tokens = Undefined\<rparr>])) \<and>
         (\<exists>m. pushed (handleGroqChat s sent answered eng res) =
                 [(Str (ascii ''groq''), cross_mark @ m)] \<and>
              notifications (run s now (handleGroqChat s sent answered eng res)) =
                 addNotification (notifications s) now (Str (ascii ''groq'')) (cross_mark @ m))"
proof -
  let ?turn = "\<lparr>role = User, content = Str (groqInput s), timestamp = sent,
                model = Undefined, tokens = Undefined\<rparr>"
  obtain req tail m where
    shape: "handleGroqChat s sent answered eng res =
       [SetChatHistory (chatHistory s @ [?turn]), SaveChatHistory (chatHistory s @ [?turn]),
        SetGroqInput [], SetGroqLoading True] @ req @ tail @ [SetGroqLoading False]"
    and quiet: "pushed req = []"
    and idle: "\<forall>c now s'. fold (apply_effect c now) req s' = s'"
    and tail: "tail = [AddNotification (Str (ascii ''groq'')) (cross_mark @ m)] \<or>
      tail = [ConsoleError (ascii ''Groq chat error:''),
              AddNotification (Str (ascii ''groq'')) (cross_mark @ m)]"
    using handleGroqChat_failed [OF assms, of sent answered eng] by blast
  have pushes: "pushed (handleGroqChat s sent answered eng res) =
      [(Str (ascii ''groq''), cross_mark @ m)]"
    using tail quiet unfolding shape by (auto simp add: pushed_append)
  have state: "run s now (handleGroqChat s sent answered eng res) =
      s\<lparr>chatHistory := chatHistory s @ [?turn],
        groqInput := [],
        groqLoading := False,
        notifications :=
          addNotification (notifications s) now (Str (ascii ''groq'')) (cross_mark @ m),
        localStorage := (localStorage s)
          (pos_chat_history \<mapsto> StoredChat (chatHistory s @ [?turn]),
           pos_notifications \<mapsto> StoredFeed
             (addNotification (notifications s) now (Str (ascii ''groq'')) (cross_mark @ m)))\<rparr>"
    using tail idle unfolding shape run_def by (auto simp add: Let_def)
  show ?thesis
    unfolding state using pushes storage_keys_distinct by simp
qed

theorem failed_send_keeps_user_turn_witness:
  "trim (groqInput ((initial_app Map.empty)\<lparr>groqInput := ascii ''hello''\<rparr>)) \<noteq> [] \<and>
   \<not> nullish (Obj [(ascii ''success'', Bool False), (ascii ''error'', Str (ascii ''busy''))]) \<and>
   \<not> truthy (get_prop (Obj [(ascii ''success'', Bool False), (ascii ''error'', Str (ascii ''busy''))])
                (ascii ''success'')) \<and>
   chatHistory (run ((initial_app Map.empty)\<lparr>groqInput := ascii ''hello''\<rparr>) 7
      (handleGroqChat ((initial_app Map.empty)\<lparr>groqInput := ascii ''hello''\<rparr>) 5 6
         \<lparr>type_error = (\<lambda>f. []), text_positive = (\<lambda>t. False)\<rparr>
         (Json (Obj [(ascii ''success'', Bool False), (ascii ''error'', Str (ascii ''busy''))])))) =
     [\<lparr>role = User, content = Str (ascii ''hello''), timestamp = 5, model = Undefined,
       tokens = Undefined\<rparr>]"
proof -
  have nonblank:
    "trim (groqInput ((initial_app Map.empty)\<lparr>groqInput := ascii ''hello''\<rparr>)) \<noteq> []"
    by (simp add: trim_eq_Nil ascii_def is_whitespace_def)
  have refused:
    "Json (Obj [(ascii ''success'', Bool False), (ascii ''error'', Str (ascii ''busy''))]) =
       FetchRejected [] \<or>
     Json (Obj [(ascii ''success'', Bool False), (ascii ''error'', Str (ascii ''busy''))]) =
       JsonRejected [] \<or>
     (Json (Obj [(ascii ''success'', Bool False), (ascii ''error'', Str (ascii ''busy''))]) =
        Json (Obj [(ascii ''success'', Bool False), (ascii ''error'', Str (ascii ''busy''))]) \<and>
      \<not> nullish (Obj [(ascii ''success'', Bool False), (ascii ''error'', Str (ascii ''busy''))]) \<and>
      \<not> truthy (get_prop (Obj [(ascii ''success'', Bool False),
                                 (ascii ''error'', Str (ascii ''busy''))]) (ascii ''success'')))"
    by simp
  show ?thesis
    using nonblank refused failed_send_keeps_user_turn [OF nonblank refused, of 7 5 6
      "\<lparr>type_error = (\<lambda>f. []), text_positive = (\<lambda>t. False)\<rparr>"]
    by (simp add: initial_app_def)
qed

section \<open>A submit that activates two agents\<close>

lemma requests_append: "requests (es @ fs) = requests es @ requests fs"
  by (induction es rule: requests.induct) simp_all

lemma requests_loadContacts: "requests (loadContacts res) = [Get (API_URL @ ascii ''/contacts'')]"
  by (simp add: loadContacts_def split: fetch_result.splits)

lemma pushed_loadContacts: "pushed (loadContacts res) = []"
  by (simp add: loadContacts_def split: fetch_result.splits)

lemma requests_Nil:
  "(\<forall>e\<in>set es. (\<forall>u. e \<noteq> Get u) \<and> (\<forall>u b. e \<noteq> Post u b)) \<Longrightarrow> requests es = []"
  by (induction es rule: requests.induct) simp_all

lemma try_block_set: "e \<in> set (fst (try_block stmts)) \<Longrightarrow> Some e \<in> set stmts"
  by (induction stmts rule: try_block.induct) auto

lemma requests_loadDashboardData:
  "requests (loadDashboardData rs) =
     [Get (API_URL @ ascii ''/context''),
      Get (API_URL @ ascii ''/xp/avatars''),
      Get (API_URL @ ascii ''/tasks?limit=50''),
      Get (API_URL @ ascii ''/calendar/today''),
      Get (API_URL @ ascii ''/weather/current''),
      Get (API_URL @ ascii ''/email/recent?max_results=50''),
      Get (API_URL @ ascii ''/contacts'')]"
proof -
  let ?stmts = "[map_option SetContext (body (contextRes rs)),
            map_option SetAvatars (collection (ascii ''avatars'') (avatarsRes rs)),
            map_option SetTasks (collection (ascii ''tasks'') (tasksRes rs)),
            map_option SetEvents (collection (ascii ''events'') (eventsRes rs)),
            map_option SetWeather (body (weatherRes rs)),
            map_option SetEmails (collection (ascii ''emails'') (emailsRes rs)),
            map_option SetContacts (collection (ascii ''contacts'') (contactsRes rs)),
            map_option (\<lambda>data. ConsoleLog (ascii ''Contacts loaded:'') (contacts_count data))
              (body (contactsRes rs))]"
  have "requests (fst (try_block ?stmts)) = []"
  proof (rule requests_Nil, rule ballI)
    fix e assume "e \<in> set (fst (try_block ?stmts))"
    then have "Some e \<in> set ?stmts" by (rule try_block_set)
    then show "(\<forall>u. e \<noteq> Get u) \<and> (\<forall>u b. e \<noteq> Post u b)"
      by (auto simp add: map_option_case split: option.splits)
  qed
  then show ?thesis
    by (simp add: loadDashboardData_def requests_append Let_def)
qed

lemma due_append: "due t (ts @ us) = due t ts @ due t us"
  by (simp add: due_def)

lemma handleSubmit_task_contact:
  assumes "trim (query s) \<noteq> []" and "\<not> nullish data"
    and "get_prop data (ascii ''agents'') = Arr [Str (ascii ''task''), Str (ascii ''contact'')]"
  shows "handleSubmit s eng (Json data) =
     [SetLoading True,
      Post (API_URL @ ascii ''/process'') (Obj [(ascii ''query'', Str (query s))]),
      SetResponse data,
      AddNotification (Str (ascii ''task'')) (check_mark @ ascii '' task Agent activated''),
      AddNotification (Str (ascii ''contact''))
        (check_mark @ ascii '' contact Agent activated''),
      SetQuery [],
      ConsoleLog (ascii ''Contact action detected, reloading contacts...'') Undefined,
      SetTimeout ReloadContactsThenNotify 500,
      SetTimeout LoadDashboardData 1500,
      SetLoading False]"
  using assms by (simp add: handleSubmit_def submit_schedule_def ascii_def)

lemma fire_reload_feed:
  "notifications (fold (apply_effect c later) (fire ReloadContactsThenNotify res rs) st) =
     take 20 (newNotif later (Str (ascii ''contact'')) (check_mark @ ascii '' Contacts updated'') #
              notifications c)"
  by (simp add: loadContacts_def Let_def addNotification_eq split: fetch_result.splits)

lemma fire_reload_contacts:
  "\<not> nullish reply \<Longrightarrow>
   contacts (fold (apply_effect c later) (fire ReloadContactsThenNotify (Json reply) rs) st) =
     or_else (get_prop reply (ascii ''contacts'')) (Arr [])"
  by (simp add: loadContacts_def Let_def)

text \<open>
  C4. A submit whose result has the agents \<open>task\<close> and \<open>contact\<close>, in this order, calls
  \<open>addNotification\<close> twice before it sets its two timers, and the two timers are due 500
  and 1500 milliseconds after the clock reading of the handler, not before. Both calls
  compute from the feed of the handler's render, so the second overwrites the first: the
  feed and the storage gain the \<open>contact\<close> activation alone, not the \<open>task\<close> one. The
  callback of the first timer reloads the contacts and pushes from the same render, so
  after it the feed is the contacts-updated notification before the feed of that
  render, with no activation notification of this submit.
\<close>

theorem submit_task_contact_keeps_last_push:
  assumes "trim (query s) \<noteq> []" and "\<not> nullish data"
    and "get_prop data (ascii ''agents'') = Arr [Str (ascii ''task''), Str (ascii ''contact'')]"
  shows "pushed (handleSubmit s eng (Json data)) =
           [(Str (ascii ''task''), check_mark @ ascii '' task Agent activated''),
            (Str (ascii ''contact''), check_mark @ ascii '' contact Agent activated'')] \<and>
         notifications (run s now (handleSubmit s eng (Json data))) =
           take 20 (newNotif now (Str (ascii ''contact''))
                      (check_mark @ ascii '' contact Agent activated'') # notifications s) \<and>
         localStorage (run s now (handleSubmit s eng (Json data))) pos_notifications =
           Some (StoredFeed
             (take 20 (newNotif now (Str (ascii ''contact''))
                      (check_mark @ ascii '' contact Agent activated'') # notifications s))) \<and>
         requests (handleSubmit s eng (Json data)) =
           [Post (API_URL @ ascii ''/process'') (Obj [(ascii ''query'', Str (query s))])] \<and>
         timers (run s now (handleSubmit s eng (Json data))) =
           timers s @ [(now + 500, ReloadContactsThenNotify), (now + 1500, LoadDashboardData)] \<and>
         due t (timers (run s now (handleSubmit s eng (Json data)))) =
           due t (timers s) @
           (if t < now + 500 then []
            else if t < now + 1500 then [ReloadContactsThenNotify]
            else [ReloadContactsThenNotify, LoadDashboardData]) \<and>
         notifications (fold (apply_effect s later) (fire ReloadContactsThenNotify res rs)
                          (run s now (handleSubmit s eng (Json data)))) =
           take 20 (newNotif later (Str (ascii ''contact''))
                      (check_mark @ ascii '' Contacts updated'') # notifications s) \<and>
         (\<not> nullish reply \<longrightarrow>
            contacts (fold (apply_effect s later) (fire ReloadContactsThenNotify (Json reply) rs)
                          (run s now (handleSubmit s eng (Json data)))) =
              or_else (get_prop reply (ascii ''contacts'')) (Arr [])) \<and>
         requests (fire ReloadContactsThenNotify res rs) = [Get (API_URL @ ascii ''/contacts'')] \<and>
         fire LoadDashboardData res rs = loadDashboardData rs \<and>
         requests (fire LoadDashboardData res rs) =
           [Get (API_URL @ ascii ''/context''),
            Get (API_URL @ ascii ''/xp/avatars''),
            Get (API_URL @ ascii ''/tasks?limit=50''),
            Get (API_URL @ ascii ''/calendar/today''),
            Get (API_URL @ ascii ''/weather/current''),
            Get (API_URL @ ascii ''/email/recent?max_results=50''),
            Get (API_URL @ ascii ''/contacts'')]"
proof -
  note trace = handleSubmit_task_contact [OF assms, of eng]
  have calls: "pushed (handleSubmit s eng (Json data)) =
           [(Str (ascii ''task''), check_mark @ ascii '' task Agent activated''),
            (Str (ascii ''contact''), check_mark @ ascii '' contact Agent activated'')]"
    and sent: "requests (handleSubmit s eng (Json data)) =
           [Post (API_URL @ ascii ''/process'') (Obj [(ascii ''query'', Str (query s))])]"
    unfolding trace by simp_all
  have feed: "notifications (run s now (handleSubmit s eng (Json data))) =
           take 20 (newNotif now (Str (ascii ''contact''))
                      (check_mark @ ascii '' contact Agent activated'') # notifications s)"
    and stored: "localStorage (run s now (handleSubmit s eng (Json data))) pos_notifications =
           Some (StoredFeed
             (take 20 (newNotif now (Str (ascii ''contact''))
                      (check_mark @ ascii '' contact Agent activated'') # notifications s)))"
    and pending: "timers (run s now (handleSubmit s eng (Json data))) =
           timers s @ [(now + 500, ReloadContactsThenNotify), (now + 1500, LoadDashboardData)]"
    unfolding trace by (simp_all add: run_def Let_def addNotification_eq)
  have due: "due t (timers (run s now (handleSubmit s eng (Json data)))) =
           due t (timers s) @
           (if t < now + 500 then []
            else if t < now + 1500 then [ReloadContactsThenNotify]
            else [ReloadContactsThenNotify, LoadDashboardData])"
    unfolding pending due_append by (simp add: due_def)
  have reloaded: "\<not> nullish reply \<longrightarrow>
            contacts (fold (apply_effect s later) (fire ReloadContactsThenNotify (Json reply) rs)
                          (run s now (handleSubmit s eng (Json data)))) =
              or_else (get_prop reply (ascii ''contacts'')) (Arr [])"
    using fire_reload_contacts by blast
  have isolated: "requests (fire ReloadContactsThenNotify res rs) =
      [Get (API_URL @ ascii ''/contacts'')]"
    by (simp add: requests_append requests_loadContacts)
  have full: "fire LoadDashboardData res rs = loadDashboardData rs"
    by simp
  have seven: "requests (fire LoadDashboardData res rs) =
           [Get (API_URL @ ascii ''/context''),
            Get (API_URL @ ascii ''/xp/avatars''),
            Get (API_URL @ ascii ''/tasks?limit=50''),
            Get (API_URL @ ascii ''/calendar/today''),
            Get (API_URL @ ascii ''/weather/current''),
            Get (API_URL @ ascii ''/email/recent?max_results=50''),
            Get (API_URL @ ascii ''/contacts'')]"
    by (simp add: requests_loadDashboardData)
  show ?thesis
    by (intro conjI)
       (rule calls feed stored sent pending due fire_reload_feed reloaded isolated full seven)+
qed

theorem submit_task_contact_keeps_last_push_witness:
  "trim (query ((initial_app Map.empty)\<lparr>query := ascii ''Add contact John''\<rparr>)) \<noteq> [] \<and>
   pushed (handleSubmit ((initial_app Map.empty)\<lparr>query := ascii ''Add contact John''\<rparr>)
     \<lparr>type_error = (\<lambda>f. []), text_positive = (\<lambda>t. False)\<rparr>
     (Json (Obj [(ascii ''response'', Str (ascii ''Added'')),
                 (ascii ''agents'', Arr [Str (ascii ''task''), Str (ascii ''contact'')])]))) =
     [(Str (ascii ''task''), check_mark @ ascii '' task Agent activated''),
      (Str (ascii ''contact''), check_mark @ ascii '' contact Agent activated'')] \<and>
   notifications (run ((initial_app Map.empty)\<lparr>query := ascii ''Add contact John''\<rparr>) 1000
     (handleSubmit ((initial_app Map.empty)\<lparr>query := ascii ''Add contact John''\<rparr>)
       \<lparr>type_error = (\<lambda>f. []), text_positive = (\<lambda>t. False)\<rparr>
       (Json (Obj [(ascii ''response'', Str (ascii ''Added'')),
                   (ascii ''agents'', Arr [Str (ascii ''task''), Str (ascii ''contact'')])])))) =
     [newNotif 1000 (Str (ascii ''contact'')) (check_mark @ ascii '' contact Agent activated'')] \<and>
   timers (run ((initial_app Map.empty)\<lparr>query := ascii ''Add contact John''\<rparr>) 1000
     (handleSubmit ((initial_app Map.empty)\<lparr>query := ascii ''Add contact John''\<rparr>)
       \<lparr>type_error = (\<lambda>f. []), text_positive = (\<lambda>t. False)\<rparr>
       (Json (Obj [(ascii ''response'', Str (ascii ''Added'')),
                   (ascii ''agents'', Arr [Str (ascii ''task''), Str (ascii ''contact'')])])))) =
     [(1500, ReloadContactsThenNotify), (2500, LoadDashboardData)] \<and>
   notifications (fold (apply_effect ((initial_app Map.empty)\<lparr>query := ascii ''Add contact John''\<rparr>) 1500)
     (fire ReloadContactsThenNotify (Json (Obj [(ascii ''contacts'', Arr [Str (ascii ''John'')])]))
        \<lparr>contextRes = Json Null, avatarsRes = Json Null, tasksRes = Json Null,
         eventsRes = Json Null, weatherRes = Json Null, emailsRes = Json Null,
         contactsRes = Json Null\<rparr>)
     (run ((initial_app Map.empty)\<lparr>query := ascii ''Add contact John''\<rparr>) 1000
       (handleSubmit ((initial_app Map.empty)\<lparr>query := ascii ''Add contact John''\<rparr>)
         \<lparr>type_error = (\<lambda>f. []), text_positive = (\<lambda>t. False)\<rparr>
         (Json (Obj [(ascii ''response'', Str (ascii ''Added'')),
                     (ascii ''agents'', Arr [Str (ascii ''task''), Str (ascii ''contact'')])]))))) =
     [newNotif 1500 (Str (ascii ''contact'')) (check_mark @ ascii '' Contacts updated'')]"
proof -
  let ?s = "(initial_app Map.empty)\<lparr>query := ascii ''Add contact John''\<rparr>"
  let ?eng = "\<lparr>type_error = (\<lambda>f. []), text_positive = (\<lambda>t. False)\<rparr>"
  let ?data = "Obj [(ascii ''response'', Str (ascii ''Added'')),
                    (ascii ''agents'', Arr [Str (ascii ''task''), Str (ascii ''contact'')])]"
  have nonblank: "trim (query ?s) \<noteq> []"
    by (simp add: trim_eq_Nil ascii_def is_whitespace_def)
  have object: "\<not> nullish ?data"
    by simp
  have agents: "get_prop ?data (ascii ''agents'') =
      Arr [Str (ascii ''task''), Str (ascii ''contact'')]"
    by (simp add: ascii_def)
  note kept = submit_task_contact_keeps_last_push [OF nonblank object agents,
    of ?eng 1000 0 1500 "Json (Obj [(ascii ''contacts'', Arr [Str (ascii ''John'')])])"
       "\<lparr>contextRes = Json Null, avatarsRes = Json Null, tasksRes = Json Null,
         eventsRes = Json Null, weatherRes = Json Null, emailsRes = Json Null,
         contactsRes = Json Null\<rparr>" Null]
  note calls = conjunct1 [OF kept]
  note feed = conjunct1 [OF conjunct2 [OF kept]]
  note pending = conjunct1 [OF conjunct2 [OF conjunct2 [OF conjunct2 [OF conjunct2 [OF kept]]]]]
  note after = conjunct1 [OF conjunct2 [OF conjunct2 [OF conjunct2 [OF conjunct2
    [OF conjunct2 [OF conjunct2 [OF kept]]]]]]]
  have empty: "notifications ?s = []" "timers ?s = []"
    by (simp_all add: initial_app_def)
  show ?thesis
    using nonblank calls feed pending after unfolding empty by simp
qed

section \<open>Unwrapping the envelopes of a full refresh\<close>

lemma run_loadDashboardData:
  assumes "contextRes rs = Json c" and "weatherRes rs = Json w"
    and "avatarsRes rs = Json a" and "\<not> nullish a"
    and "tasksRes rs = Json t" and "\<not> nullish t"
    and "eventsRes rs = Json e" and "\<not> nullish e"
    and "emailsRes rs = Json m" and "\<not> nullish m"
    and "contactsRes rs = Json k" and "\<not> nullish k"
  shows "run s now (loadDashboardData rs) =
     s\<lparr>context' := c,
       avatars := or_else (get_prop a (ascii ''avatars'')) (Arr []),
       tasks := or_else (get_prop t (ascii ''tasks'')) (Arr []),
       events := or_else (get_prop e (ascii ''events'')) (Arr []),
       weather := w,
       emails := or_else (get_prop m (ascii ''emails'')) (Arr []),
       contacts := or_else (get_prop k (ascii ''contacts'')) (Arr [])\<rparr>"
  using assms
  by (simp add: run_def loadDashboardData_def fetch_rejected_def body_def collection_def)

text \<open>
  C6. A sub-response whose field holds a text where the array is expected is well formed
  JSON with a malformed field; the refresh stores the text as the task collection.
\<close>

theorem malformed_field_counterexample:
  "tasks (run (initial_app Map.empty) 0
     (loadDashboardData
        \<lparr>contextRes = Json (Obj []),
         avatarsRes = Json (Obj [(ascii ''avatars'', Arr [])]),
         tasksRes = Json (Obj [(ascii ''tasks'', Str (ascii ''oops''))]),
         eventsRes = Json (Obj [(ascii ''events'', Arr [])]),
         weatherRes = Json (Obj []),
         emailsRes = Json (Obj [(ascii ''emails'', Arr [])]),
         contactsRes = Json (Obj [(ascii ''contacts'', Arr [])])\<rparr>)) \<noteq> Arr []"
  by (simp add: run_def loadDashboardData_def fetch_rejected_def body_def collection_def
      or_else_def initial_app_def ascii_def)

text \<open>
  C6, amended. In a full refresh whose seven responses parse, the five envelopes being
  neither \<open>null\<close> nor \<open>undefined\<close>, every collection is set from its own sub-response
  alone: to the empty sequence when the named field is missing or falsy (\<open>null\<close>,
  \<open>false\<close>, \<open>0\<close>, the empty text), and to the value of the field otherwise. A missing
  field in one sub-response so leaves that collection empty and no other collection
  depends on it. The context and the weather are set to their bodies.
\<close>

theorem refresh_unwraps_each_envelope:
  assumes "contextRes rs = Json c" and "weatherRes rs = Json w"
    and "avatarsRes rs = Json a" and "\<not> nullish a"
    and "tasksRes rs = Json t" and "\<not> nullish t"
    and "eventsRes rs = Json e" and "\<not> nullish e"
    and "emailsRes rs = Json m" and "\<not> nullish m"
    and "contactsRes rs = Json k" and "\<not> nullish k"
  shows "avatars (run s now (loadDashboardData rs)) =
           (if truthy (get_prop a (ascii ''avatars'')) then get_prop a (ascii ''avatars'')
            else Arr []) \<and>
         tasks (run s now (loadDashboardData rs)) =
           (if truthy (get_prop t (ascii ''tasks'')) then get_prop t (ascii ''tasks'')
            else Arr []) \<and>
         events (run s now (loadDashboardData rs)) =
           (if truthy (get_prop e (ascii ''events'')) then get_prop e (ascii ''events'')
            else Arr []) \<and>
         emails (run s now (loadDashboardData rs)) =
           (if truthy (get_prop m (ascii ''emails'')) then get_prop m (ascii ''emails'')
            else Arr []) \<and>
         contacts (run s now (loadDashboardData rs)) =
           (if truthy (get_prop k (ascii ''contacts'')) then get_prop k (ascii ''contacts'')
            else Arr []) \<and>
         context' (run s now (loadDashboardData rs)) = c \<and>
         weather (run s now (loadDashboardData rs)) = w \<and>
         \<not> truthy Undefined \<and> \<not> truthy Null \<and> \<not> truthy (Bool False) \<and>
         \<not> truthy (Num 0) \<and> \<not> truthy (Str [])"
  unfolding run_loadDashboardData [OF assms] by (simp add: or_else_def)

theorem refresh_unwraps_each_envelope_witness:
  "tasks (run (initial_app Map.empty) 0
     (loadDashboardData
        \<lparr>contextRes = Json (Obj [(ascii ''energy_level'', Num 7)]),
         avatarsRes = Json (Obj [(ascii ''avatars'', Arr [])]),
         tasksRes = Json (Obj [(ascii ''count'', Num 3)]),
         eventsRes = Json (Obj [(ascii ''events'', Null)]),
         weatherRes = Json Null,
         emailsRes = Json (Obj [(ascii ''emails'', Arr [Str (ascii ''hi'')])]),
         contactsRes = Json (Obj [(ascii ''contacts'', Arr [Str (ascii ''John'')])])\<rparr>)) = Arr [] \<and>
   contacts (run (initial_app Map.empty) 0
     (loadDashboardData
        \<lparr>contextRes = Json (Obj [(ascii ''energy_level'', Num 7)]),
         avatarsRes = Json (Obj [(ascii ''avatars'', Arr [])]),
         tasksRes = Json (Obj [(ascii ''count'', Num 3)]),
         eventsRes = Json (Obj [(ascii ''events'', Null)]),
         weatherRes = Json Null,
         emailsRes = Json (Obj [(ascii ''emails'', Arr [Str (ascii ''hi'')])]),
         contactsRes = Json (Obj [(ascii ''contacts'', Arr [Str (ascii ''John'')])])\<rparr>)) =
     Arr [Str (ascii ''John'')]"
  using refresh_unwraps_each_envelope
    [of "\<lparr>contextRes = Json (Obj [(ascii ''energy_level'', Num 7)]),
         avatarsRes = Json (Obj [(ascii ''avatars'', Arr [])]),
         tasksRes = Json (Obj [(ascii ''count'', Num 3)]),
         eventsRes = Json (Obj [(ascii ''events'', Null)]),
         weatherRes = Json Null,
         emailsRes = Json (Obj [(ascii ''emails'', Arr [Str (ascii ''hi'')])]),
         contactsRes = Json (Obj [(ascii ''contacts'', Arr [Str (ascii ''John'')])])\<rparr>"
        "Obj [(ascii ''energy_level'', Num 7)]" Null
        "Obj [(ascii ''avatars'', Arr [])]"
        "Obj [(ascii ''count'', Num 3)]"
        "Obj [(ascii ''events'', Null)]"
        "Obj [(ascii ''emails'', Arr [Str (ascii ''hi'')])]"
        "Obj [(ascii ''contacts'', Arr [Str (ascii ''John'')])]"
        "initial_app Map.empty" 0]
  by (simp add: ascii_def)

section \<open>Properties of pagination\<close>

lemma take_min_length: "take (min n (length xs)) xs = take n xs"
  by (simp add: min_def)

lemma slice_nonneg:
  assumes "0 \<le> a" and "a \<le> b"
  shows "slice xs a b = take (nat (b - a)) (drop (nat a) xs)"
proof (cases "a < int (length xs)")
  case True
  have "nat (min b (int (length xs)) - a) = min (nat (b - a)) (length (drop (nat a) xs))"
    using assms True by (simp add: min_def) linarith
  then have "take (nat (min b (int (length xs)) - a)) (drop (nat a) xs) =
      take (nat (b - a)) (drop (nat a) xs)"
    by (simp only: take_min_length)
  then show ?thesis
    using assms True by (simp add: slice_def Let_def min_def)
next
  case False
  with assms show ?thesis by (simp add: slice_def Let_def min_def)
qed

lemma paginatedContacts_from_1:
  "1 \<le> page \<Longrightarrow> paginatedContacts page items = take 5 (drop (nat ((page - 1) * 5)) items)"
  using slice_nonneg [of "(page - 1) * 5" "(page - 1) * 5 + 5" items]
  by (simp add: paginatedContacts_def startIndex_def itemsPerPage_def)

lemma paginatedContacts_0: "paginatedContacts 0 items = []"
  by (simp add: paginatedContacts_def startIndex_def itemsPerPage_def slice_def Let_def)

lemma ceiling_pages: "(page::int) \<le> (n + 5 - 1) div 5 \<longleftrightarrow> (page - 1) * 5 < n"
  by presburger

lemma within_pages:
  "1 \<le> page \<Longrightarrow> page \<le> totalPages n \<longleftrightarrow> nat ((page - 1) * 5) < n"
  unfolding totalPages_def itemsPerPage_def using ceiling_pages [of page "int n"] by auto

lemma contactPage_fold_kept:
  "(\<forall>e\<in>set es. \<forall>p. e \<noteq> SetContactPage p) \<Longrightarrow>
     contactPage (fold (apply_effect c now) es s) = contactPage s"
proof (induction es arbitrary: s)
  case Nil
  then show ?case by simp
next
  case (Cons e es)
  then have "contactPage (apply_effect c now e s) = contactPage s"
    by (cases e) (simp_all add: Let_def)
  with Cons show ?case by simp
qed

lemma loadContacts_keeps_page: "contactPage (run s now (loadContacts res)) = contactPage s"
  unfolding run_def
  by (rule contactPage_fold_kept) (auto simp add: loadContacts_def split: fetch_result.splits)

lemma Some_map_option: "Some e = map_option f x \<Longrightarrow> \<exists>v. e = f v"
  by (cases x) auto

lemma loadDashboardData_calls:
  assumes "e \<in> set (loadDashboardData rs)"
  shows "(\<exists>u. e = Get u) \<or> (\<exists>l. e = ConsoleError l) \<or> (\<exists>l v. e = ConsoleLog l v) \<or>
         (\<exists>v. e = SetContext v \<or> e = SetAvatars v \<or> e = SetTasks v \<or> e = SetEvents v \<or>
              e = SetWeather v \<or> e = SetEmails v \<or> e = SetContacts v)"
proof -
  let ?stmts = "[map_option SetContext (body (contextRes rs)),
            map_option SetAvatars (collection (ascii ''avatars'') (avatarsRes rs)),
            map_option SetTasks (collection (ascii ''tasks'') (tasksRes rs)),
            map_option SetEvents (collection (ascii ''events'') (eventsRes rs)),
            map_option SetWeather (body (weatherRes rs)),
            map_option SetEmails (collection (ascii ''emails'') (emailsRes rs)),
            map_option SetContacts (collection (ascii ''contacts'') (contactsRes rs)),
            map_option (\<lambda>data. ConsoleLog (ascii ''Contacts loaded:'') (contacts_count data))
              (body (contactsRes rs))]"
  from assms consider
      (request) "\<exists>u. e = Get u"
    | (failure) "\<exists>l. e = ConsoleError l"
    | (block) "e \<in> set (fst (try_block ?stmts))"
    unfolding loadDashboardData_def Let_def
    by (simp split: if_splits) blast+
  then show ?thesis
  proof cases
    case request
    then show ?thesis by blast
  next
    case failure
    then show ?thesis by blast
  next
    case block
    then have "Some e \<in> set ?stmts" by (rule try_block_set)
    then have "Some e = map_option SetContext (body (contextRes rs)) \<or>
        Some e = map_option SetAvatars (collection (ascii ''avatars'') (avatarsRes rs)) \<or>
        Some e = map_option SetTasks (collection (ascii ''tasks'') (tasksRes rs)) \<or>
        Some e = map_option SetEvents (collection (ascii ''events'') (eventsRes rs)) \<or>
        Some e = map_option SetWeather (body (weatherRes rs)) \<or>
        Some e = map_option SetEmails (collection (ascii ''emails'') (emailsRes rs)) \<or>
        Some e = map_option SetContacts (collection (ascii ''contacts'') (contactsRes rs)) \<or>
        Some e = map_option (\<lambda>data. ConsoleLog (ascii ''Contacts loaded:'') (contacts_count data))
              (body (contactsRes rs))"
      by simp
    then show ?thesis
      by (elim disjE) (drule Some_map_option, blast)+
  qed
qed

lemma loadDashboardData_keeps_page:
  "contactPage (run s now (loadDashboardData rs)) = contactPage s"
  unfolding run_def
proof (rule contactPage_fold_kept, rule ballI)
  fix e assume "e \<in> set (loadDashboardData rs)"
  then show "\<forall>p. e \<noteq> SetContactPage p"
    using loadDashboardData_calls [of e rs] by auto
qed

text \<open>
  C5. The contact view is on page 3 of twelve contacts; a reload returns four. The page
  stays 3, the slice shown is empty although there are contacts, and the pagination bar
  is not rendered. Page 0 shows the empty slice as well.
\<close>

theorem page_not_clamped_counterexample:
  "contactPage (run ((initial_app Map.empty)
       \<lparr>contacts := Arr [Num 1, Num 2, Num 3, Num 4, Num 5, Num 6, Num 7, Num 8, Num 9,
                         Num 10, Num 11, Num 12],
        contactPage := 3\<rparr>) 0
     (loadContacts (Json (Obj [(ascii ''contacts'', Arr [Num 1, Num 2, Num 3, Num 4])])))) = 3 \<and>
   contacts (run ((initial_app Map.empty)
       \<lparr>contacts := Arr [Num 1, Num 2, Num 3, Num 4, Num 5, Num 6, Num 7, Num 8, Num 9,
                         Num 10, Num 11, Num 12],
        contactPage := 3\<rparr>) 0
     (loadContacts (Json (Obj [(ascii ''contacts'', Arr [Num 1, Num 2, Num 3, Num 4])])))) =
     Arr [Num 1, Num 2, Num 3, Num 4] \<and>
   paginatedContacts 3 [Num 1, Num 2, Num 3, Num 4] = [] \<and>
   Pagination 3 (length [Num 1, Num 2, Num 3, Num 4]) = None \<and>
   paginatedContacts 0 [Num 1, Num 2, Num 3, Num 4, Num 5, Num 6, Num 7, Num 8, Num 9,
                        Num 10, Num 11, Num 12] = []"
  by (simp add: run_def loadContacts_def or_else_def initial_app_def paginatedContacts_0
      paginatedContacts_from_1 Pagination_def totalPages_def itemsPerPage_def)

text \<open>
  C5, amended. For every collection and every page number the slice shown is a run of
  consecutive items of the collection, so no read is out of range. With twelve items,
  page 3 shows exactly the two last ones. A page from 1 to the number of pages shows its
  up to five items and at least one. The page is not clamped and a refresh does not
  reset it: page 0 and every page beyond the last show the empty slice, and the two
  refreshes leave the page number as it is. A click on a pagination button that is
  enabled, from a page within 1 and the number of pages, leads to a page within them.
\<close>

theorem pagination_slices:
  "(\<exists>k n. paginatedContacts page items = take n (drop k items)) \<and>
   (length items = 12 \<longrightarrow>
      paginatedContacts 3 items = drop 10 items \<and> length (paginatedContacts 3 items) = 2) \<and>
   (1 \<le> page \<and> page \<le> totalPages (length items) \<longrightarrow>
      paginatedContacts page items = take 5 (drop (nat ((page - 1) * 5)) items) \<and>
      paginatedContacts page items \<noteq> []) \<and>
   (page = 0 \<or> totalPages (length items) < page \<longrightarrow> paginatedContacts page items = []) \<and>
   contactPage (run s now (loadContacts res)) = contactPage s \<and>
   contactPage (run s now (loadDashboardData rs)) = contactPage s \<and>
   (1 \<le> page \<and> page \<le> totalPages (length items) \<longrightarrow>
      (\<forall>p. SetContactPage p \<in> set (clickPrev page (length items) @
                                       clickNext page (length items)) \<longrightarrow>
           1 \<le> p \<and> p \<le> totalPages (length items)))"
proof -
  have run_of_items: "\<exists>k n. paginatedContacts page items = take n (drop k items)"
    unfolding paginatedContacts_def slice_def Let_def by blast
  have twelve: "length items = 12 \<longrightarrow>
      paginatedContacts 3 items = drop 10 items \<and> length (paginatedContacts 3 items) = 2"
    by (simp add: paginatedContacts_from_1)
  have inside: "1 \<le> page \<and> page \<le> totalPages (length items) \<longrightarrow>
      paginatedContacts page items = take 5 (drop (nat ((page - 1) * 5)) items) \<and>
      paginatedContacts page items \<noteq> []"
    using within_pages [of page "length items"] by (auto simp add: paginatedContacts_from_1)
  have outside: "page = 0 \<or> totalPages (length items) < page \<longrightarrow>
      paginatedContacts page items = []"
  proof
    assume "page = 0 \<or> totalPages (length items) < page"
    then show "paginatedContacts page items = []"
    proof
      assume "page = 0"
      then show ?thesis by (simp add: paginatedContacts_0)
    next
      assume beyond: "totalPages (length items) < page"
      have "0 \<le> totalPages (length items)"
        by (simp add: totalPages_def itemsPerPage_def)
      with beyond have "1 \<le> page" by simp
      with beyond within_pages [of page "length items"] show ?thesis
        by (simp add: paginatedContacts_from_1)
    qed
  qed
  have buttons: "1 \<le> page \<and> page \<le> totalPages (length items) \<longrightarrow>
      (\<forall>p. SetContactPage p \<in> set (clickPrev page (length items) @
                                       clickNext page (length items)) \<longrightarrow>
           1 \<le> p \<and> p \<le> totalPages (length items))"
    by (auto simp add: clickPrev_def clickNext_def Pagination_def split: if_splits)
  show ?thesis
    by (intro conjI)
       (rule run_of_items twelve inside outside buttons loadContacts_keeps_page
          loadDashboardData_keeps_page)+
qed

theorem pagination_slices_witness:
  "length [1, 2, 3, 4, 5, 6, 7, 8, 9, 10, 11, 12 :: nat] = 12 \<and>
   paginatedContacts 3 [1, 2, 3, 4, 5, 6, 7, 8, 9, 10, 11, 12 :: nat] = [11, 12] \<and>
   1 \<le> (2::int) \<and> 2 \<le> totalPages (length [1, 2, 3, 4, 5, 6, 7, 8, 9, 10, 11, 12 :: nat]) \<and>
   paginatedContacts 2 [1, 2, 3, 4, 5, 6, 7, 8, 9, 10, 11, 12 :: nat] = [6, 7, 8, 9, 10]"
proof -
  note last_page =
    conjunct1 [OF conjunct2 [OF pagination_slices
      [of 3 "[1, 2, 3, 4, 5, 6, 7, 8, 9, 10, 11, 12 :: nat]"]]]
  note second_page =
    conjunct1 [OF conjunct2 [OF conjunct2 [OF pagination_slices
      [of 2 "[1, 2, 3, 4, 5, 6, 7, 8, 9, 10, 11, 12 :: nat]"]]]]
  show ?thesis
    using last_page second_page by (simp add: totalPages_def itemsPerPage_def)
qed

end
